theory Spec2Isabelle
  imports Main "HOL-Library.Word"
begin

unbundle bit_operations_syntax

section \<open>Data slot interface (src/firmware/dataslot.c)\<close>

text \<open>
  A shallow embedding of the CPU side of the data slot protocol: the completion
  waiter \<open>dataslot_wait_complete\<close> and the slot operations built on it.
  Unsigned 32-bit values are \<open>32 word\<close>; the C \<open>int\<close> results are HOL
  integers, with every conversion from a 32-bit pattern written as \<open>sint\<close>.
\<close>

type_synonym u8 = "8 word"
type_synonym u16 = "16 word"
type_synonym u32 = "32 word"

subsection \<open>Constants of the missing header\<close>

text \<open>
  Modelled from the spec: \<open>dataslot.h\<close> is not among the sources, so the status
  bit masks, the error field's mask and shift, the command codes and the macro
  \<open>CPU_TO_BRIDGE_ADDR\<close> are parameters of the model. The spec (sections 3 and 6)
  only says that the status register has an ACK bit, a DONE bit and an
  error-code sub-field with a defined shift and width.
\<close>

record ds_config =
  DS_STATUS_ACK :: u32
  DS_STATUS_DONE :: u32
  DS_STATUS_ERR_MASK :: u32
  DS_STATUS_ERR_SHIFT :: nat
  DS_CMD_OPENFILE :: u32
  DS_CMD_READ :: u32
  DS_CMD_WRITE :: u32
  CPU_TO_BRIDGE_ADDR :: "u32 \<Rightarrow> u32"

text \<open>
  The error field is a proper sub-field of the 32-bit status word: the shift is a
  valid C shift count and the shifted mask fits the non-negative range of
  \<open>int\<close>.
\<close>

definition err_field_fits :: "ds_config \<Rightarrow> bool" where
  "err_field_fits cfg \<longleftrightarrow>
     DS_STATUS_ERR_SHIFT cfg < 32 \<and>
     uint (drop_bit (DS_STATUS_ERR_SHIFT cfg) (DS_STATUS_ERR_MASK cfg)) < 2 ^ 31"

text \<open>
  Modelled from the spec: one register layout that fits the description, used
  where a property is evaluated at a concrete configuration. ACK is bit 0, DONE
  is bit 1, the error code occupies bits 2 to 4, and the bridge sees the shared
  memory window at offset 0.
\<close>

definition example_config :: ds_config where
  "example_config =
     \<lparr> DS_STATUS_ACK = 1, DS_STATUS_DONE = 2,
       DS_STATUS_ERR_MASK = 0x1C, DS_STATUS_ERR_SHIFT = 2,
       DS_CMD_OPENFILE = 0x0192, DS_CMD_READ = 0x0180, DS_CMD_WRITE = 0x0184,
       CPU_TO_BRIDGE_ADDR = (\<lambda>a. a - 0x10000000) \<rparr>"

subsection \<open>Terminal trace\<close>

text \<open>
  Each \<open>term_printf\<close> call of dataslot.c is one trace line; the constructor
  carries the values the format string prints. \<open>term_printf\<close> (terminal.c) only
  writes to the text VRAM and its cursor, never to a data slot register.
\<close>

datatype trace =
    WaitInitial u32
  | WaitAckHigh
  | WaitTimeoutClear int
  | WaitAckCleared
  | WaitTimeoutAck int
  | WaitGotAck
  | WaitTimeoutDone int u32
  | WaitGotDone
  | WaitFinal u32 int
  | ReadParams u32 u32 u32 u32
  | ReadStatusBefore u32
  | ReadStatusAfter u32 int
  | ReadData u32

subsection \<open>The staging buffer and the register set\<close>

text \<open>
  Modelled from the spec: the type \<open>dataslot_open_param_t\<close> is declared in the
  missing header. It has a 256-byte filename field (the code stores the
  terminator at index 255), the open flags and the requested size (field
  \<open>size\<close>, here \<open>size_param\<close>).
\<close>

record dataslot_open_param =
  filename :: "u8 list"
  flags :: u32
  size_param :: u32

text \<open>
  The memory-mapped registers hold the value last written; \<open>DS_COMMAND\<close> is a
  write-only trigger, so the model keeps every value written to it, oldest
  first. \<open>DS_STATUS\<close> is volatile and owned by the bridge: \<open>status_seq k\<close> is
  the value the \<open>k\<close>-th read of the register returns and \<open>status_reads\<close> counts
  the reads made so far, so that any behaviour of the bridge is some
  \<open>status_seq\<close>. \<open>spins\<close> is instrumentation, not a program variable: it counts
  the evaluations of the waiter's loop conditions.
\<close>

record ds_state =
  DS_SLOT_ID :: u32
  DS_SLOT_OFFSET :: u32
  DS_BRIDGE_ADDR :: u32
  DS_LENGTH :: u32
  DS_PARAM_ADDR :: u32
  DS_RESP_ADDR :: u32
  DS_COMMAND :: "u32 list"
  status_seq :: "nat \<Rightarrow> u32"
  status_reads :: nat
  spins :: nat
  param_buffer :: dataslot_open_param
  term_log :: "trace list"

definition PARAM_BUFFER_ADDR :: u32 where
  "PARAM_BUFFER_ADDR = 0x10F00000"

definition RESP_BUFFER_ADDR :: u32 where
  "RESP_BUFFER_ADDR = 0x10F01000"

definition TIMEOUT_LOOPS :: int where
  "TIMEOUT_LOOPS = 200000000"

definition read_status :: "ds_state \<Rightarrow> u32 \<times> ds_state" where
  "read_status s = (status_seq s (status_reads s), s\<lparr>status_reads := Suc (status_reads s)\<rparr>)"

definition term_printf :: "trace \<Rightarrow> ds_state \<Rightarrow> ds_state" where
  "term_printf line s = s\<lparr>term_log := term_log s @ [line]\<rparr>"

subsection \<open>The completion waiter\<close>

text \<open>
  The three polling loops of \<open>dataslot_wait_complete\<close> have one shape:
  \<^verbatim>\<open>while (cond(DS_STATUS)) { if (--timeout <= 0) { ...; return code; } }\<close>
  \<open>spin cond timeout s\<close> runs such a loop and returns whether the countdown
  expired, the value of \<open>timeout\<close> and the state. The caller prints the
  timeout line and returns the phase's code when it expired.
\<close>

function spin :: "(u32 \<Rightarrow> bool) \<Rightarrow> int \<Rightarrow> ds_state \<Rightarrow> bool \<times> int \<times> ds_state" where
  "spin cond timeout s =
     (let (st, s1) = read_status s;
          s2 = s1\<lparr>spins := Suc (spins s1)\<rparr>
      in if cond st then
           (let t = timeout - 1
            in if t \<le> 0 then (True, t, s2) else spin cond t s2)
         else (False, timeout, s2))"
  by pat_completeness auto
termination
  by (relation "measure (\<lambda>(cond, timeout, s). nat timeout)") auto

declare spin.simps [simp del]

text \<open>
  The expression \<^verbatim>\<open>(final_status & DS_STATUS_ERR_MASK) >> DS_STATUS_ERR_SHIFT\<close>.
\<close>

definition err_field :: "ds_config \<Rightarrow> u32 \<Rightarrow> u32" where
  "err_field cfg st = drop_bit (DS_STATUS_ERR_SHIFT cfg) (st AND DS_STATUS_ERR_MASK cfg)"

text \<open>An integer wrapped into the range of the 32-bit C \<open>int\<close>.\<close>

definition int32 :: "int \<Rightarrow> int" where
  "int32 x = sint (word_of_int x :: u32)"

text \<open>
  Lines 61 to 65: read the final status and extract the error code. The
  unsigned field is converted to \<open>int\<close> and negated in 32-bit arithmetic.
\<close>

definition wait_result :: "ds_config \<Rightarrow> ds_state \<Rightarrow> int \<times> ds_state" where
  "wait_result cfg s =
     (let (final_status, s1) = read_status s;
          err = sint (err_field cfg final_status);
          s2 = term_printf (WaitFinal final_status err) s1
      in (if err \<noteq> 0 then int32 (- err) else 0, s2))"

text \<open>Lines 51 to 59: wait for DONE with a fresh countdown.\<close>

definition wait_done :: "ds_config \<Rightarrow> ds_state \<Rightarrow> int \<times> ds_state" where
  "wait_done cfg s =
     (case spin (\<lambda>st. st AND DS_STATUS_DONE cfg = 0) TIMEOUT_LOOPS s of
        (True, t, s1) \<Rightarrow>
          (let (st, s2) = read_status s1
           in (- 2, term_printf (WaitTimeoutDone t st) s2))
      | (False, t, s1) \<Rightarrow> wait_result cfg (term_printf WaitGotDone s1))"

text \<open>Lines 41 to 49: wait for this command's ACK with a fresh countdown.\<close>

definition wait_ack :: "ds_config \<Rightarrow> ds_state \<Rightarrow> int \<times> ds_state" where
  "wait_ack cfg s =
     (case spin (\<lambda>st. st AND DS_STATUS_ACK cfg = 0) TIMEOUT_LOOPS s of
        (True, t, s1) \<Rightarrow> (- 1, term_printf (WaitTimeoutAck t) s1)
      | (False, t, s1) \<Rightarrow> wait_done cfg (term_printf WaitGotAck s1))"

text \<open>
  Lines 21 to 39: print the initial status, sample the status, and drain a stale
  ACK if the sample has the bit set.
\<close>

definition dataslot_wait_complete :: "ds_config \<Rightarrow> ds_state \<Rightarrow> int \<times> ds_state" where
  "dataslot_wait_complete cfg s =
     (let (st0, s1) = read_status s;
          s2 = term_printf (WaitInitial st0) s1;
          (status, s3) = read_status s2
      in if status AND DS_STATUS_ACK cfg \<noteq> 0 then
           (case spin (\<lambda>st. st AND DS_STATUS_ACK cfg \<noteq> 0) TIMEOUT_LOOPS
                   (term_printf WaitAckHigh s3) of
              (True, t, s4) \<Rightarrow> (- 3, term_printf (WaitTimeoutClear t) s4)
            | (False, t, s4) \<Rightarrow> wait_ack cfg (term_printf WaitAckCleared s4))
         else wait_ack cfg s3)"

subsection \<open>The slot operations\<close>

text \<open>
  Modelled from the spec: \<open>memset\<close> and \<open>strncpy\<close> come from the firmware's
  \<open>libc/libc.h\<close>, which is not among the sources; they follow ISO C. A store
  through \<open>poke\<close> outside the array is a failure (\<open>None\<close>), never a silent
  write. The source string is the list of bytes at the \<open>filename\<close> pointer; it
  ends at its first zero byte or at the end of the list. \<open>strncpy dst i src n\<close>
  stores \<open>n\<close> bytes from index \<open>i\<close> on: the bytes of the string and, once the
  string has ended, zero bytes.
\<close>

definition poke :: "u8 list \<Rightarrow> nat \<Rightarrow> u8 \<Rightarrow> u8 list option" where
  "poke buf i v = (if i < length buf then Some (buf[i := v]) else None)"

fun strncpy :: "u8 list \<Rightarrow> nat \<Rightarrow> u8 list \<Rightarrow> nat \<Rightarrow> u8 list option" where
  "strncpy dst i src 0 = Some dst"
| "strncpy dst i src (Suc n) =
     (let c = (case src of [] \<Rightarrow> 0 | x # _ \<Rightarrow> x)
      in case poke dst i c of
           None \<Rightarrow> None
         | Some dst' \<Rightarrow> strncpy dst' (Suc i) (if c = 0 then [] else tl src) n)"

text \<open>
  Lines 73 to 78 of \<open>dataslot_open_file\<close>: clear the parameter block, copy at
  most 255 bytes of the name, store the terminator at index 255, set flags and
  size.
\<close>

definition stage_open_param :: "u8 list \<Rightarrow> u32 \<Rightarrow> u32 \<Rightarrow> dataslot_open_param option" where
  "stage_open_param name fl sz =
     (let p0 = \<lparr> filename = replicate 256 0, flags = 0, size_param = 0 \<rparr>
      in case strncpy (filename p0) 0 name 255 of
           None \<Rightarrow> None
         | Some f1 \<Rightarrow>
             (case poke f1 255 0 of
                None \<Rightarrow> None
              | Some f2 \<Rightarrow> Some (p0\<lparr>filename := f2, flags := fl, size_param := sz\<rparr>)))"

definition dataslot_open_file ::
  "ds_config \<Rightarrow> u8 list \<Rightarrow> u32 \<Rightarrow> u32 \<Rightarrow> ds_state \<Rightarrow> (int \<times> ds_state) option" where
  "dataslot_open_file cfg name fl sz s =
     (case stage_open_param name fl sz of
        None \<Rightarrow> None
      | Some p \<Rightarrow>
          (let s1 = s\<lparr>param_buffer := p\<rparr>;
               s2 = s1\<lparr>DS_SLOT_ID := 0\<rparr>;
               s3 = s2\<lparr>DS_PARAM_ADDR := CPU_TO_BRIDGE_ADDR cfg PARAM_BUFFER_ADDR\<rparr>;
               s4 = s3\<lparr>DS_RESP_ADDR := CPU_TO_BRIDGE_ADDR cfg RESP_BUFFER_ADDR\<rparr>;
               s5 = s4\<lparr>DS_COMMAND := DS_COMMAND s4 @ [DS_CMD_OPENFILE cfg]\<rparr>
           in Some (dataslot_wait_complete cfg s5)))"

text \<open>
  \<open>dataslot_read\<close>: the pointer \<open>dest\<close> is its 32-bit address. The last trace
  line dumps the first bytes at \<open>dest\<close>; the model records the address only.
\<close>

definition dataslot_read ::
  "ds_config \<Rightarrow> u32 \<Rightarrow> u32 \<Rightarrow> u32 \<Rightarrow> u32 \<Rightarrow> ds_state \<Rightarrow> int \<times> ds_state" where
  "dataslot_read cfg slot_id offset dest len s =
     (let dest_addr = dest
      in if dest_addr < 0x10000000 \<or> dest_addr \<ge> 0x14000000 then (- 10, s)
         else
           (let bridge_addr = CPU_TO_BRIDGE_ADDR cfg dest_addr;
                s1 = term_printf (ReadParams slot_id offset bridge_addr len) s;
                (st, s2) = read_status s1;
                s3 = term_printf (ReadStatusBefore st) s2;
                s4 = s3\<lparr>DS_SLOT_ID := slot_id\<rparr>;
                s5 = s4\<lparr>DS_SLOT_OFFSET := offset\<rparr>;
                s6 = s5\<lparr>DS_BRIDGE_ADDR := bridge_addr\<rparr>;
                s7 = s6\<lparr>DS_LENGTH := len\<rparr>;
                s8 = s7\<lparr>DS_COMMAND := DS_COMMAND s7 @ [DS_CMD_READ cfg]\<rparr>;
                (result, s9) = dataslot_wait_complete cfg s8;
                (st', s10) = read_status s9;
                s11 = term_printf (ReadStatusAfter st' result) s10;
                s12 = term_printf (ReadData dest) s11
            in (result, s12)))"

text \<open>\<open>dataslot_write\<close>: \<open>slot_id\<close> is a \<open>uint16_t\<close>, widened on the register store.\<close>

definition dataslot_write ::
  "ds_config \<Rightarrow> u16 \<Rightarrow> u32 \<Rightarrow> u32 \<Rightarrow> u32 \<Rightarrow> ds_state \<Rightarrow> int \<times> ds_state" where
  "dataslot_write cfg slot_id offset src len s =
     (let src_addr = src
      in if src_addr < 0x10000000 \<or> src_addr \<ge> 0x14000000 then (- 10, s)
         else
           (let s1 = s\<lparr>DS_SLOT_ID := ucast slot_id\<rparr>;
                s2 = s1\<lparr>DS_SLOT_OFFSET := offset\<rparr>;
                s3 = s2\<lparr>DS_BRIDGE_ADDR := CPU_TO_BRIDGE_ADDR cfg src_addr\<rparr>;
                s4 = s3\<lparr>DS_LENGTH := len\<rparr>;
                s5 = s4\<lparr>DS_COMMAND := DS_COMMAND s4 @ [DS_CMD_WRITE cfg]\<rparr>
            in dataslot_wait_complete cfg s5))"

text \<open>
  \<open>dataslot_load\<close>: the \<open>uint16_t\<close> slot is widened for \<open>dataslot_read\<close>, and
  the result \<^verbatim>\<open>(int32_t)max_length\<close> reads the 32-bit length as a signed value.
\<close>

definition dataslot_load ::
  "ds_config \<Rightarrow> u16 \<Rightarrow> u32 \<Rightarrow> u32 \<Rightarrow> ds_state \<Rightarrow> int \<times> ds_state" where
  "dataslot_load cfg slot_id dest max_length s =
     (let (result, s1) = dataslot_read cfg (ucast slot_id) 0 dest max_length s
      in if result < 0 then (result, s1) else (sint max_length, s1))"

subsection \<open>Observing a run\<close>

text \<open>The trace lines printed between two states.\<close>

definition emitted :: "ds_state \<Rightarrow> ds_state \<Rightarrow> trace list" where
  "emitted s s' = drop (length (term_log s)) (term_log s')"

text \<open>
  \<open>advance n m evs s\<close> is \<open>s\<close> after \<open>n\<close> further status reads, \<open>m\<close> of them
  by loop conditions, and the trace lines \<open>evs\<close>.
\<close>

definition advance :: "nat \<Rightarrow> nat \<Rightarrow> trace list \<Rightarrow> ds_state \<Rightarrow> ds_state" where
  "advance n m evs s =
     s\<lparr>status_reads := status_reads s + n, spins := spins s + m,
       term_log := term_log s @ evs\<rparr>"

text \<open>The value line 65 returns when the final status word is \<open>st\<close>.\<close>

definition bridge_code :: "ds_config \<Rightarrow> u32 \<Rightarrow> int" where
  "bridge_code cfg st =
     (if sint (err_field cfg st) \<noteq> 0 then int32 (- sint (err_field cfg st)) else 0)"

text \<open>
  How the last trace line of a waiter run relates to the returned value; \<open>stl\<close>
  is the status word of the run's last register read.
\<close>

definition verdict :: "ds_config \<Rightarrow> u32 \<Rightarrow> int \<Rightarrow> trace \<Rightarrow> bool" where
  "verdict cfg stl r ev =
     (case ev of
        WaitTimeoutClear t \<Rightarrow> t = 0 \<and> r = - 3
      | WaitTimeoutAck t \<Rightarrow> t = 0 \<and> r = - 1
      | WaitTimeoutDone t st \<Rightarrow> t = 0 \<and> st = stl \<and> r = - 2
      | WaitFinal st e \<Rightarrow> st = stl \<and> e = sint (err_field cfg st) \<and> r = bridge_code cfg st
      | _ \<Rightarrow> False)"

text \<open>
  The register stores of \<open>dataslot_read\<close> and \<open>dataslot_write\<close> (slot, offset,
  bridge address, length) followed by the store to the command register.
\<close>

definition program_transfer :: "u32 \<Rightarrow> u32 \<Rightarrow> u32 \<Rightarrow> u32 \<Rightarrow> u32 \<Rightarrow> ds_state \<Rightarrow> ds_state" where
  "program_transfer slot off baddr len cmd s =
     s\<lparr>DS_SLOT_ID := slot, DS_SLOT_OFFSET := off, DS_BRIDGE_ADDR := baddr,
       DS_LENGTH := len, DS_COMMAND := DS_COMMAND s @ [cmd]\<rparr>"

text \<open>A device at rest whose status register will return the given values.\<close>

definition idle_device :: "(nat \<Rightarrow> u32) \<Rightarrow> ds_state" where
  "idle_device sq =
     \<lparr> DS_SLOT_ID = 0, DS_SLOT_OFFSET = 0, DS_BRIDGE_ADDR = 0, DS_LENGTH = 0,
       DS_PARAM_ADDR = 0, DS_RESP_ADDR = 0, DS_COMMAND = [],
       status_seq = sq, status_reads = 0, spins = 0,
       param_buffer = \<lparr> filename = [], flags = 0, size_param = 0 \<rparr>,
       term_log = [] \<rparr>"

text \<open>
  Status streams of simulated bridges, for the configuration \<open>example_config\<close>:
  ACK asserted forever; no response at all; ACK from the fourth read on but
  never DONE; ACK and DONE with error code \<open>e\<close> from the fourth read on.
\<close>

definition stuck_ack :: "nat \<Rightarrow> u32" where
  "stuck_ack k = 1"

definition silent :: "nat \<Rightarrow> u32" where
  "silent k = 0"

definition ack_only :: "nat \<Rightarrow> u32" where
  "ack_only k = (if k < 3 then 0 else 1)"

definition completes :: "u32 \<Rightarrow> nat \<Rightarrow> u32" where
  "completes e k = (if k < 3 then 0 else 3 OR push_bit 2 e)"

text \<open>
  Two more bridges that never set DONE: one whose ACK is clear at the first read
  of a call and set from the second read on, and one whose stale ACK is clear at
  the fourth read only.
\<close>

definition early_ack :: "nat \<Rightarrow> u32" where
  "early_ack k = (if k < 1 then 0 else 1)"

definition drained_ack :: "nat \<Rightarrow> u32" where
  "drained_ack k = (if k = 3 then 0 else 1)"


text \<open>
  The C string held by a byte list (the bytes before the first zero byte), and
  the \<open>n\<close> bytes \<open>strncpy\<close> stores for it: the string cut to \<open>n\<close> bytes, padded with
  zero bytes.
\<close>

definition c_string :: "u8 list \<Rightarrow> u8 list" where
  "c_string src = takeWhile (\<lambda>c. c \<noteq> 0) src"

definition padded :: "nat \<Rightarrow> u8 list \<Rightarrow> u8 list" where
  "padded n str = take n str @ replicate (n - length str) 0"

section \<open>Properties of the polling loop and of the waiter\<close>

lemma advance_sel [simp]:
  "status_reads (advance n m evs s) = status_reads s + n"
  "spins (advance n m evs s) = spins s + m"
  "term_log (advance n m evs s) = term_log s @ evs"
  "status_seq (advance n m evs s) = status_seq s"
  "DS_SLOT_ID (advance n m evs s) = DS_SLOT_ID s"
  "DS_SLOT_OFFSET (advance n m evs s) = DS_SLOT_OFFSET s"
  "DS_BRIDGE_ADDR (advance n m evs s) = DS_BRIDGE_ADDR s"
  "DS_LENGTH (advance n m evs s) = DS_LENGTH s"
  "DS_PARAM_ADDR (advance n m evs s) = DS_PARAM_ADDR s"
  "DS_RESP_ADDR (advance n m evs s) = DS_RESP_ADDR s"
  "DS_COMMAND (advance n m evs s) = DS_COMMAND s"
  "param_buffer (advance n m evs s) = param_buffer s"
  by (simp_all add: advance_def)

lemma advance_advance [simp]:
  "advance n' m' evs' (advance n m evs s) = advance (n + n') (m + m') (evs @ evs') s"
  by (simp add: advance_def)

lemma read_status_advance: "read_status s = (status_seq s (status_reads s), advance 1 0 [] s)"
  by (simp add: read_status_def advance_def)

lemma term_printf_advance: "term_printf ev s = advance 0 0 [ev] s"
  by (simp add: term_printf_def advance_def)

lemma spin_unfold:
  "spin c t s =
     (if c (status_seq s (status_reads s)) then
        (if t - 1 \<le> 0
         then (True, t - 1, advance 1 1 [] s)
         else spin c (t - 1) (advance 1 1 [] s))
      else (False, t, advance 1 1 [] s))"
  by (subst spin.simps) (simp add: read_status_def Let_def advance_def)

lemma spin_expired:
  "0 < t \<Longrightarrow> \<forall>k < nat t. c (status_seq s (status_reads s + k)) \<Longrightarrow>
   spin c t s = (True, 0, advance (nat t) (nat t) [] s)"
proof (induction "nat t" arbitrary: t s)
  case 0
  then show ?case by simp
next
  case (Suc n)
  have c0: "c (status_seq s (status_reads s))"
    using Suc.prems(2)[rule_format, of 0] Suc.prems(1) by simp
  show ?case
  proof (cases "t - 1 \<le> 0")
    case True
    then have "t = 1" using Suc.prems(1) by simp
    then show ?thesis using c0 by (subst spin_unfold) simp
  next
    case False
    have n: "n = nat (t - 1)" using Suc.hyps(2) by simp
    have all: "\<forall>k < nat (t - 1). c (status_seq (advance 1 1 [] s) (status_reads (advance 1 1 [] s) + k))"
    proof (intro allI impI)
      fix k assume "k < nat (t - 1)"
      then have "Suc k < nat t" by simp
      from Suc.prems(2)[rule_format, OF this]
      show "c (status_seq (advance 1 1 [] s) (status_reads (advance 1 1 [] s) + k))" by simp
    qed
    have "spin c (t - 1) (advance 1 1 [] s) =
            (True, 0, advance (nat (t - 1)) (nat (t - 1)) [] (advance 1 1 [] s))"
      using Suc.hyps(1)[OF n _ all] False by simp
    moreover have "Suc (nat (t - 1)) = nat t" using False by simp
    ultimately show ?thesis using c0 False
      by (subst spin_unfold) simp
  qed
qed

lemma spin_exit:
  "int j < t \<Longrightarrow> \<forall>k < j. c (status_seq s (status_reads s + k)) \<Longrightarrow>
   \<not> c (status_seq s (status_reads s + j)) \<Longrightarrow>
   spin c t s = (False, t - int j, advance (Suc j) (Suc j) [] s)"
proof (induction j arbitrary: t s)
  case 0
  then show ?case by (subst spin_unfold) simp
next
  case (Suc j)
  let ?s2 = "advance 1 1 [] s"
  have c0: "c (status_seq s (status_reads s))"
    using Suc.prems(2)[rule_format, of 0] by simp
  have t: "\<not> t - 1 \<le> 0" "int j < t - 1" using Suc.prems(1) by simp_all
  have all: "\<forall>k < j. c (status_seq ?s2 (status_reads ?s2 + k))"
  proof (intro allI impI)
    fix k assume "k < j"
    then have "Suc k < Suc j" by simp
    from Suc.prems(2)[rule_format, OF this]
    show "c (status_seq ?s2 (status_reads ?s2 + k))" by simp
  qed
  have last: "\<not> c (status_seq ?s2 (status_reads ?s2 + j))"
    using Suc.prems(3) by simp
  have "spin c (t - 1) ?s2 = (False, t - 1 - int j, advance (Suc j) (Suc j) [] ?s2)"
    by (rule Suc.IH[OF t(2) all last])
  then show ?case using c0 t(1)
    by (subst spin_unfold) simp
qed

text \<open>Every run of a polling loop with a positive budget is one of the two above.\<close>

lemma spin_cases:
  assumes "0 < t"
  obtains
    (expired) "\<forall>k < nat t. c (status_seq s (status_reads s + k))"
      "spin c t s = (True, 0, advance (nat t) (nat t) [] s)"
  | (exit) j where "j < nat t" "\<forall>k < j. c (status_seq s (status_reads s + k))"
      "\<not> c (status_seq s (status_reads s + j))"
      "spin c t s = (False, t - int j, advance (Suc j) (Suc j) [] s)"
proof (cases "\<forall>k < nat t. c (status_seq s (status_reads s + k))")
  case True
  then show ?thesis using spin_expired[OF assms True] expired by blast
next
  case False
  define j where "j = (LEAST k. \<not> c (status_seq s (status_reads s + k)))"
  from False obtain k0 where k0: "k0 < nat t" "\<not> c (status_seq s (status_reads s + k0))" by blast
  have nj: "\<not> c (status_seq s (status_reads s + j))"
    unfolding j_def using k0(2) by (rule LeastI)
  have jle: "j \<le> k0" unfolding j_def using k0(2) by (rule Least_le)
  have before: "\<forall>k < j. c (status_seq s (status_reads s + k))"
    unfolding j_def using not_less_Least by blast
  have jt: "int j < t" using jle k0(1) by simp
  show ?thesis
    using exit[of j] spin_exit[OF jt before nj] jle k0(1) before nj by simp
qed

lemma T_pos: "0 < TIMEOUT_LOOPS" by (simp add: TIMEOUT_LOOPS_def)

lemma spin_budget_cases:
  obtains
    (expired) "\<forall>k < nat TIMEOUT_LOOPS. c (status_seq s (status_reads s + k))"
      "spin c TIMEOUT_LOOPS s = (True, 0, advance (nat TIMEOUT_LOOPS) (nat TIMEOUT_LOOPS) [] s)"
  | (exit) j where "j < nat TIMEOUT_LOOPS" "\<forall>k < j. c (status_seq s (status_reads s + k))"
      "\<not> c (status_seq s (status_reads s + j))"
      "spin c TIMEOUT_LOOPS s = (False, TIMEOUT_LOOPS - int j, advance (Suc j) (Suc j) [] s)"
  using spin_cases[OF T_pos, of c s] by blast

lemma emitted_advance [simp]: "emitted s (advance n m evs s) = evs"
  by (simp add: emitted_def)

lemma wait_result_run:
  "wait_result cfg s =
     (bridge_code cfg (status_seq s (status_reads s)),
      advance 1 0 [WaitFinal (status_seq s (status_reads s))
                     (sint (err_field cfg (status_seq s (status_reads s))))] s)"
  by (simp add: wait_result_def read_status_advance term_printf_advance bridge_code_def Let_def)

lemma wait_done_timeout:
  assumes "\<forall>k < nat TIMEOUT_LOOPS. status_seq s (status_reads s + k) AND DS_STATUS_DONE cfg = 0"
  shows "wait_done cfg s =
     (- 2, advance (Suc (nat TIMEOUT_LOOPS)) (nat TIMEOUT_LOOPS)
             [WaitTimeoutDone 0 (status_seq s (status_reads s + nat TIMEOUT_LOOPS))] s)"
  using spin_expired[OF T_pos, of "\<lambda>st. st AND DS_STATUS_DONE cfg = 0" s] assms
  by (simp add: wait_done_def read_status_advance term_printf_advance)

lemma wait_done_exit:
  assumes "j < nat TIMEOUT_LOOPS"
    and "\<forall>k < j. status_seq s (status_reads s + k) AND DS_STATUS_DONE cfg = 0"
    and "status_seq s (status_reads s + j) AND DS_STATUS_DONE cfg \<noteq> 0"
  shows "wait_done cfg s =
     (bridge_code cfg (status_seq s (status_reads s + Suc j)),
      advance (j + 2) (Suc j)
        [WaitGotDone, WaitFinal (status_seq s (status_reads s + Suc j))
                        (sint (err_field cfg (status_seq s (status_reads s + Suc j))))] s)"
proof -
  have "int j < TIMEOUT_LOOPS" using assms(1) by simp
  from spin_exit[of j TIMEOUT_LOOPS "\<lambda>st. st AND DS_STATUS_DONE cfg = 0" s, OF this] assms(2,3)
  show ?thesis
    by (simp add: wait_done_def wait_result_run term_printf_advance)
qed

lemma wait_ack_timeout:
  assumes "\<forall>k < nat TIMEOUT_LOOPS. status_seq s (status_reads s + k) AND DS_STATUS_ACK cfg = 0"
  shows "wait_ack cfg s =
     (- 1, advance (nat TIMEOUT_LOOPS) (nat TIMEOUT_LOOPS) [WaitTimeoutAck 0] s)"
  using spin_expired[OF T_pos, of "\<lambda>st. st AND DS_STATUS_ACK cfg = 0" s] assms
  by (simp add: wait_ack_def term_printf_advance)

lemma wait_ack_exit:
  assumes "i < nat TIMEOUT_LOOPS"
    and "\<forall>k < i. status_seq s (status_reads s + k) AND DS_STATUS_ACK cfg = 0"
    and "status_seq s (status_reads s + i) AND DS_STATUS_ACK cfg \<noteq> 0"
  shows "wait_ack cfg s = wait_done cfg (advance (Suc i) (Suc i) [WaitGotAck] s)"
proof -
  have "int i < TIMEOUT_LOOPS" using assms(1) by simp
  from spin_exit[of i TIMEOUT_LOOPS "\<lambda>st. st AND DS_STATUS_ACK cfg = 0" s, OF this] assms(2,3)
  show ?thesis
    by (simp add: wait_ack_def term_printf_advance)
qed

lemma waiter_fresh:
  assumes "status_seq s (Suc (status_reads s)) AND DS_STATUS_ACK cfg = 0"
  shows "dataslot_wait_complete cfg s =
           wait_ack cfg (advance 2 0 [WaitInitial (status_seq s (status_reads s))] s)"
  using assms
  by (simp add: dataslot_wait_complete_def read_status_advance term_printf_advance
        numeral_2_eq_2 numeral_3_eq_3)

lemma waiter_stale_timeout:
  assumes "status_seq s (Suc (status_reads s)) AND DS_STATUS_ACK cfg \<noteq> 0"
    and "\<forall>k < nat TIMEOUT_LOOPS. status_seq s (status_reads s + 2 + k) AND DS_STATUS_ACK cfg \<noteq> 0"
  shows "dataslot_wait_complete cfg s =
     (- 3, advance (nat TIMEOUT_LOOPS + 2) (nat TIMEOUT_LOOPS)
             [WaitInitial (status_seq s (status_reads s)), WaitAckHigh, WaitTimeoutClear 0] s)"
proof -
  let ?s3 = "advance 2 0 [WaitInitial (status_seq s (status_reads s)), WaitAckHigh] s"
  have "\<forall>k < nat TIMEOUT_LOOPS. status_seq ?s3 (status_reads ?s3 + k) AND DS_STATUS_ACK cfg \<noteq> 0"
    using assms(2) by simp
  from spin_expired[OF T_pos, of "\<lambda>st. st AND DS_STATUS_ACK cfg \<noteq> 0" ?s3, OF this] assms(1)
  show ?thesis
    by (simp add: dataslot_wait_complete_def read_status_advance term_printf_advance
        numeral_2_eq_2 numeral_3_eq_3)
qed

lemma waiter_stale_exit:
  assumes "status_seq s (Suc (status_reads s)) AND DS_STATUS_ACK cfg \<noteq> 0"
    and "h < nat TIMEOUT_LOOPS"
    and "\<forall>k < h. status_seq s (status_reads s + 2 + k) AND DS_STATUS_ACK cfg \<noteq> 0"
    and "status_seq s (status_reads s + 2 + h) AND DS_STATUS_ACK cfg = 0"
  shows "dataslot_wait_complete cfg s =
     wait_ack cfg (advance (h + 3) (Suc h)
        [WaitInitial (status_seq s (status_reads s)), WaitAckHigh, WaitAckCleared] s)"
proof -
  let ?s3 = "advance 2 0 [WaitInitial (status_seq s (status_reads s)), WaitAckHigh] s"
  have a: "\<forall>k < h. status_seq ?s3 (status_reads ?s3 + k) AND DS_STATUS_ACK cfg \<noteq> 0"
    using assms(3) by simp
  have b: "\<not> status_seq ?s3 (status_reads ?s3 + h) AND DS_STATUS_ACK cfg \<noteq> 0"
    using assms(4) by simp
  have "int h < TIMEOUT_LOOPS" using assms(2) by simp
  from spin_exit[of h TIMEOUT_LOOPS "\<lambda>st. st AND DS_STATUS_ACK cfg \<noteq> 0" ?s3, OF this a b] assms(1)
  show ?thesis
    by (simp add: dataslot_wait_complete_def read_status_advance term_printf_advance
        numeral_2_eq_2 numeral_3_eq_3)
qed

lemma wait_done_summary:
  "\<exists>n m evs r. wait_done cfg s = (r, advance n m evs s) \<and> 1 \<le> n \<and>
     m \<le> nat TIMEOUT_LOOPS \<and> n \<le> m + 1 \<and> evs \<noteq> [] \<and> WaitAckHigh \<notin> set evs \<and>
     verdict cfg (status_seq s (status_reads s + n - 1)) r (last evs) \<and>
     (WaitGotDone \<in> set evs \<longleftrightarrow> (\<exists>st e. last evs = WaitFinal st e)) \<and>
     (\<forall>st e. WaitFinal st e \<in> set evs \<longrightarrow> last evs = WaitFinal st e)"
proof (cases rule: spin_budget_cases[of "\<lambda>st. st AND DS_STATUS_DONE cfg = 0" s])
  case expired
  have run: "wait_done cfg s =
     (- 2, advance (Suc (nat TIMEOUT_LOOPS)) (nat TIMEOUT_LOOPS)
             [WaitTimeoutDone 0 (status_seq s (status_reads s + nat TIMEOUT_LOOPS))] s)"
    using expired(1) by (intro wait_done_timeout) simp
  show ?thesis
    apply (rule exI[of _ "Suc (nat TIMEOUT_LOOPS)"], rule exI[of _ "nat TIMEOUT_LOOPS"])
    apply (rule exI[of _ "[WaitTimeoutDone 0 (status_seq s (status_reads s + nat TIMEOUT_LOOPS))]"], rule exI[of _ "- 2"])
    using run 
    apply (simp add: verdict_def)
    done
next
  case (exit j)
  have run: "wait_done cfg s =
     (bridge_code cfg (status_seq s (status_reads s + Suc j)),
      advance (j + 2) (Suc j)
        [WaitGotDone, WaitFinal (status_seq s (status_reads s + Suc j))
                        (sint (err_field cfg (status_seq s (status_reads s + Suc j))))] s)"
    using exit(1,2,3) by (intro wait_done_exit) simp_all
  show ?thesis
    apply (rule exI[of _ "j + 2"], rule exI[of _ "Suc j"])
    apply (rule exI[of _ "[WaitGotDone, WaitFinal (status_seq s (status_reads s + Suc j))
                        (sint (err_field cfg (status_seq s (status_reads s + Suc j))))]"], rule exI[of _ "bridge_code cfg (status_seq s (status_reads s + Suc j))"])
    using run exit(1)
    apply (simp add: verdict_def)
    done
qed

lemma wait_ack_summary:
  "\<exists>n m evs r. wait_ack cfg s = (r, advance n m evs s) \<and> 1 \<le> n \<and>
     m \<le> 2 * nat TIMEOUT_LOOPS \<and> n \<le> m + 1 \<and> evs \<noteq> [] \<and> WaitAckHigh \<notin> set evs \<and>
     verdict cfg (status_seq s (status_reads s + n - 1)) r (last evs) \<and>
     (WaitGotDone \<in> set evs \<longleftrightarrow> (\<exists>st e. last evs = WaitFinal st e)) \<and>
     (\<forall>st e. WaitFinal st e \<in> set evs \<longrightarrow> last evs = WaitFinal st e)"
proof (cases rule: spin_budget_cases[of "\<lambda>st. st AND DS_STATUS_ACK cfg = 0" s])
  case expired
  have run: "wait_ack cfg s =
     (- 1, advance (nat TIMEOUT_LOOPS) (nat TIMEOUT_LOOPS) [WaitTimeoutAck 0] s)"
    using expired(1) by (intro wait_ack_timeout) simp
  show ?thesis
    apply (rule exI[of _ "nat TIMEOUT_LOOPS"], rule exI[of _ "nat TIMEOUT_LOOPS"])
    apply (rule exI[of _ "[WaitTimeoutAck 0]"], rule exI[of _ "- 1"])
    using run T_pos
    apply (simp add: verdict_def)
    done
next
  case (exit i)
  let ?s1 = "advance (Suc i) (Suc i) [WaitGotAck] s"
  have step: "wait_ack cfg s = wait_done cfg ?s1"
    using exit(1,2,3) by (intro wait_ack_exit) simp_all
  from wait_done_summary[of cfg ?s1] obtain n m evs r where
    run: "wait_done cfg ?s1 = (r, advance n m evs ?s1)" and n: "1 \<le> n" and
    m: "m \<le> nat TIMEOUT_LOOPS" and nm: "n \<le> m + 1" and ne: "evs \<noteq> []" and
    hi: "WaitAckHigh \<notin> set evs" and
    v: "verdict cfg (status_seq ?s1 (status_reads ?s1 + n - 1)) r (last evs)" and
    gd: "WaitGotDone \<in> set evs \<longleftrightarrow> (\<exists>st e. last evs = WaitFinal st e)" and
    fin: "\<forall>st e. WaitFinal st e \<in> set evs \<longrightarrow> last evs = WaitFinal st e"
    by blast
  show ?thesis
    apply (rule exI[of _ "Suc i + n"], rule exI[of _ "Suc i + m"])
    apply (rule exI[of _ "WaitGotAck # evs"], rule exI[of _ r])
    using step run n m nm ne hi v gd fin exit(1)
    apply (simp add: add.assoc)
    done
qed

lemma waiter_summary:
  "\<exists>n m evs r. dataslot_wait_complete cfg s = (r, advance n m evs s) \<and> 1 \<le> n \<and>
     m \<le> 3 * nat TIMEOUT_LOOPS \<and> n \<le> m + 3 \<and> evs \<noteq> [] \<and>
     (WaitAckHigh \<in> set evs \<longleftrightarrow> status_seq s (Suc (status_reads s)) AND DS_STATUS_ACK cfg \<noteq> 0) \<and>
     verdict cfg (status_seq s (status_reads s + n - 1)) r (last evs) \<and>
     (WaitGotDone \<in> set evs \<longleftrightarrow> (\<exists>st e. last evs = WaitFinal st e)) \<and>
     (\<forall>st e. WaitFinal st e \<in> set evs \<longrightarrow> last evs = WaitFinal st e)"
proof (cases "status_seq s (Suc (status_reads s)) AND DS_STATUS_ACK cfg = 0")
  case True
  let ?s1 = "advance 2 0 [WaitInitial (status_seq s (status_reads s))] s"
  have step: "dataslot_wait_complete cfg s = wait_ack cfg ?s1"
    using True by (rule waiter_fresh)
  from wait_ack_summary[of cfg ?s1] obtain n m evs r where
    run: "wait_ack cfg ?s1 = (r, advance n m evs ?s1)" and n: "1 \<le> n" and
    m: "m \<le> 2 * nat TIMEOUT_LOOPS" and nm: "n \<le> m + 1" and ne: "evs \<noteq> []" and
    hi: "WaitAckHigh \<notin> set evs" and
    v: "verdict cfg (status_seq ?s1 (status_reads ?s1 + n - 1)) r (last evs)" and
    gd: "WaitGotDone \<in> set evs \<longleftrightarrow> (\<exists>st e. last evs = WaitFinal st e)" and
    fin: "\<forall>st e. WaitFinal st e \<in> set evs \<longrightarrow> last evs = WaitFinal st e"
    by blast
  show ?thesis
    apply (rule exI[of _ "2 + n"], rule exI[of _ "m"])
    apply (rule exI[of _ "WaitInitial (status_seq s (status_reads s)) # evs"], rule exI[of _ r])
    using step run n m nm ne hi v gd fin True
    apply (simp add: add.assoc)
    done
next
  case False
  let ?s3 = "advance 2 0 [WaitInitial (status_seq s (status_reads s)), WaitAckHigh] s"
  show ?thesis
  proof (cases rule: spin_budget_cases[of "\<lambda>st. st AND DS_STATUS_ACK cfg \<noteq> 0" ?s3])
    case expired
    have run: "dataslot_wait_complete cfg s =
     (- 3, advance (nat TIMEOUT_LOOPS + 2) (nat TIMEOUT_LOOPS)
             [WaitInitial (status_seq s (status_reads s)), WaitAckHigh, WaitTimeoutClear 0] s)"
      using False expired(1) by (intro waiter_stale_timeout) simp_all
    show ?thesis
      apply (rule exI[of _ "nat TIMEOUT_LOOPS + 2"], rule exI[of _ "nat TIMEOUT_LOOPS"])
      apply (rule exI[of _ "[WaitInitial (status_seq s (status_reads s)), WaitAckHigh,
                               WaitTimeoutClear 0]"], rule exI[of _ "- 3"])
      using run False
      apply (simp add: verdict_def)
      done
  next
    case (exit h)
    let ?s1 = "advance (h + 3) (Suc h)
        [WaitInitial (status_seq s (status_reads s)), WaitAckHigh, WaitAckCleared] s"
    have step: "dataslot_wait_complete cfg s = wait_ack cfg ?s1"
      using False exit(1,2,3) by (intro waiter_stale_exit) simp_all
    from wait_ack_summary[of cfg ?s1] obtain n m evs r where
      run: "wait_ack cfg ?s1 = (r, advance n m evs ?s1)" and n: "1 \<le> n" and
      m: "m \<le> 2 * nat TIMEOUT_LOOPS" and nm: "n \<le> m + 1" and ne: "evs \<noteq> []" and
      hi: "WaitAckHigh \<notin> set evs" and
      v: "verdict cfg (status_seq ?s1 (status_reads ?s1 + n - 1)) r (last evs)" and
      gd: "WaitGotDone \<in> set evs \<longleftrightarrow> (\<exists>st e. last evs = WaitFinal st e)" and
    fin: "\<forall>st e. WaitFinal st e \<in> set evs \<longrightarrow> last evs = WaitFinal st e"
      by blast
    show ?thesis
      apply (rule exI[of _ "h + 3 + n"], rule exI[of _ "Suc h + m"])
      apply (rule exI[of _ "[WaitInitial (status_seq s (status_reads s)), WaitAckHigh,
                               WaitAckCleared] @ evs"], rule exI[of _ r])
      using step run n m nm ne hi v gd fin False exit(1)
      apply (simp add: add.assoc)
      done
  qed
qed

lemma int32_small: "- (2 ^ 31) \<le> x \<Longrightarrow> x < 2 ^ 31 \<Longrightarrow> int32 x = x"
  unfolding int32_def
  by (simp add: signed_of_int signed_take_bit_int_eq_self)

lemma sint_small:
  assumes "uint (w :: u32) < 2 ^ 31"
  shows "sint w = uint w"
proof -
  have nn: "0 \<le> uint w" by simp
  have p: "(2::int) ^ 31 = 2147483648" by simp
  have "- (2 ^ 31) \<le> uint w" using nn p by linarith
  then have "signed_take_bit 31 (uint w) = uint w"
    using assms by (rule signed_take_bit_int_eq_self)
  then show ?thesis by (simp add: sint_uint)
qed

lemma err_field_bound:
  assumes "err_field_fits cfg"
  shows "uint (err_field cfg st) < 2 ^ 31"
proof -
  have "err_field cfg st \<le> drop_bit (DS_STATUS_ERR_SHIFT cfg) (DS_STATUS_ERR_MASK cfg)"
    unfolding err_field_def by (simp add: word_and_le1 drop_bit_and)
  then have "uint (err_field cfg st) \<le> uint (drop_bit (DS_STATUS_ERR_SHIFT cfg) (DS_STATUS_ERR_MASK cfg))"
    by (simp add: word_le_def)
  then show ?thesis using assms unfolding err_field_fits_def by simp
qed

lemma bridge_code_fits:
  assumes "err_field_fits cfg"
  shows "bridge_code cfg st = - uint (err_field cfg st)"
proof -
  have b: "uint (err_field cfg st) < 2 ^ 31" using assms by (rule err_field_bound)
  have s: "sint (err_field cfg st) = uint (err_field cfg st)" using b by (rule sint_small)
  have "int32 (- uint (err_field cfg st)) = - uint (err_field cfg st)"
  proof (rule int32_small)
    have nn: "0 \<le> uint (err_field cfg st)" by simp
    have p: "(2::int) ^ 31 = 2147483648" by simp
    show "- (2 ^ 31) \<le> - uint (err_field cfg st)" using b by linarith
    show "- uint (err_field cfg st) < 2 ^ 31" using nn p by linarith
  qed
  then show ?thesis by (simp add: bridge_code_def s)
qed

lemma example_fits: "err_field_fits example_config"
  by (simp add: err_field_fits_def example_config_def)

subsection \<open>The transfer operations in terms of the waiter\<close>

lemma program_transfer_sel [simp]:
  "DS_SLOT_ID (program_transfer slot off baddr len cmd s) = slot"
  "DS_SLOT_OFFSET (program_transfer slot off baddr len cmd s) = off"
  "DS_BRIDGE_ADDR (program_transfer slot off baddr len cmd s) = baddr"
  "DS_LENGTH (program_transfer slot off baddr len cmd s) = len"
  "DS_COMMAND (program_transfer slot off baddr len cmd s) = DS_COMMAND s @ [cmd]"
  "DS_PARAM_ADDR (program_transfer slot off baddr len cmd s) = DS_PARAM_ADDR s"
  "DS_RESP_ADDR (program_transfer slot off baddr len cmd s) = DS_RESP_ADDR s"
  "status_seq (program_transfer slot off baddr len cmd s) = status_seq s"
  "status_reads (program_transfer slot off baddr len cmd s) = status_reads s"
  "spins (program_transfer slot off baddr len cmd s) = spins s"
  "param_buffer (program_transfer slot off baddr len cmd s) = param_buffer s"
  "term_log (program_transfer slot off baddr len cmd s) = term_log s"
  by (simp_all add: program_transfer_def)

lemma program_transfer_advance:
  "program_transfer slot off baddr len cmd (advance n m evs s) =
     advance n m evs (program_transfer slot off baddr len cmd s)"
  by (simp add: program_transfer_def advance_def)

lemma emitted_advance_program [simp]:
  "emitted s (advance n m evs (program_transfer slot off baddr len cmd s)) = evs"
  by (simp add: emitted_def)

lemma dataslot_read_invalid:
  "dest < 0x10000000 \<or> 0x14000000 \<le> dest \<Longrightarrow> dataslot_read cfg slot off dest len s = (- 10, s)"
  by (simp add: dataslot_read_def)

lemma dataslot_write_invalid:
  "src < 0x10000000 \<or> 0x14000000 \<le> src \<Longrightarrow> dataslot_write cfg slot off src len s = (- 10, s)"
  by (simp add: dataslot_write_def)

lemma dataslot_read_valid:
  assumes "0x10000000 \<le> dest" "dest < 0x14000000"
    and "dataslot_wait_complete cfg
           (program_transfer slot off (CPU_TO_BRIDGE_ADDR cfg dest) len (DS_CMD_READ cfg)
              (advance 1 0 [ReadParams slot off (CPU_TO_BRIDGE_ADDR cfg dest) len,
                            ReadStatusBefore (status_seq s (status_reads s))] s))
         = (r, s9)"
  shows "dataslot_read cfg slot off dest len s =
           (r, advance 1 0 [ReadStatusAfter (status_seq s9 (status_reads s9)) r, ReadData dest] s9)"
proof -
  have v: "\<not> (dest < 0x10000000 \<or> 0x14000000 \<le> dest)" using assms(1,2) by (simp add: not_less)
  have p: "(s\<lparr>status_reads := Suc (status_reads s),
               term_log := term_log s @ [ReadParams slot off (CPU_TO_BRIDGE_ADDR cfg dest) len,
                  ReadStatusBefore (status_seq s (status_reads s))],
               DS_SLOT_ID := slot, DS_SLOT_OFFSET := off,
               DS_BRIDGE_ADDR := CPU_TO_BRIDGE_ADDR cfg dest, DS_LENGTH := len,
               DS_COMMAND := DS_COMMAND s @ [DS_CMD_READ cfg]\<rparr>) =
           program_transfer slot off (CPU_TO_BRIDGE_ADDR cfg dest) len (DS_CMD_READ cfg)
              (advance 1 0 [ReadParams slot off (CPU_TO_BRIDGE_ADDR cfg dest) len,
                            ReadStatusBefore (status_seq s (status_reads s))] s)"
    by (simp add: program_transfer_def advance_def)
  show ?thesis
    using v assms(3)
    by (simp add: dataslot_read_def Let_def read_status_def term_printf_def p)
qed

lemma dataslot_write_valid:
  assumes "0x10000000 \<le> src" "src < 0x14000000"
  shows "dataslot_write cfg slot off src len s =
           dataslot_wait_complete cfg
             (program_transfer (ucast slot) off (CPU_TO_BRIDGE_ADDR cfg src) len (DS_CMD_WRITE cfg) s)"
proof -
  have v: "\<not> (src < 0x10000000 \<or> 0x14000000 \<le> src)" using assms(1,2) by (simp add: not_less)
  show ?thesis using v
    by (simp add: dataslot_write_def Let_def program_transfer_def)
qed

lemma dataslot_read_summary:
  assumes "0x10000000 \<le> dest" "dest < 0x14000000"
  shows "\<exists>n m evs r st'. dataslot_read cfg slot off dest len s =
      (r, advance (n + 2) m
            ([ReadParams slot off (CPU_TO_BRIDGE_ADDR cfg dest) len,
              ReadStatusBefore (status_seq s (status_reads s))] @ evs @
             [ReadStatusAfter st' r, ReadData dest])
            (program_transfer slot off (CPU_TO_BRIDGE_ADDR cfg dest) len (DS_CMD_READ cfg) s)) \<and>
      dataslot_wait_complete cfg
        (program_transfer slot off (CPU_TO_BRIDGE_ADDR cfg dest) len (DS_CMD_READ cfg)
           (advance 1 0 [ReadParams slot off (CPU_TO_BRIDGE_ADDR cfg dest) len,
                         ReadStatusBefore (status_seq s (status_reads s))] s)) =
      (r, advance n m evs
        (program_transfer slot off (CPU_TO_BRIDGE_ADDR cfg dest) len (DS_CMD_READ cfg)
           (advance 1 0 [ReadParams slot off (CPU_TO_BRIDGE_ADDR cfg dest) len,
                         ReadStatusBefore (status_seq s (status_reads s))] s))) \<and>
      evs \<noteq> [] \<and> (\<exists>stl. verdict cfg stl r (last evs)) \<and>
      (\<forall>st e. WaitFinal st e \<in> set evs \<longrightarrow> last evs = WaitFinal st e)"
proof -
  let ?s8 = "program_transfer slot off (CPU_TO_BRIDGE_ADDR cfg dest) len (DS_CMD_READ cfg)
           (advance 1 0 [ReadParams slot off (CPU_TO_BRIDGE_ADDR cfg dest) len,
                         ReadStatusBefore (status_seq s (status_reads s))] s)"
  from waiter_summary[of cfg ?s8] obtain n m evs r where
    run: "dataslot_wait_complete cfg ?s8 = (r, advance n m evs ?s8)" and
    ne: "evs \<noteq> []" and
    v: "verdict cfg (status_seq ?s8 (status_reads ?s8 + n - 1)) r (last evs)" and
    fin: "\<forall>st e. WaitFinal st e \<in> set evs \<longrightarrow> last evs = WaitFinal st e"
    by blast
  have "dataslot_read cfg slot off dest len s =
      (r, advance 1 0 [ReadStatusAfter (status_seq (advance n m evs ?s8)
                          (status_reads (advance n m evs ?s8))) r, ReadData dest]
            (advance n m evs ?s8))"
    using assms run by (rule dataslot_read_valid)
  then have "dataslot_read cfg slot off dest len s =
      (r, advance (n + 2) m
            ([ReadParams slot off (CPU_TO_BRIDGE_ADDR cfg dest) len,
              ReadStatusBefore (status_seq s (status_reads s))] @ evs @
             [ReadStatusAfter (status_seq s (Suc (status_reads s + n))) r, ReadData dest])
            (program_transfer slot off (CPU_TO_BRIDGE_ADDR cfg dest) len (DS_CMD_READ cfg) s))"
    by (simp add: program_transfer_advance add.commute add.left_commute)
  then show ?thesis using run ne v fin by blast
qed

lemma dataslot_write_summary:
  assumes "0x10000000 \<le> src" "src < 0x14000000"
  shows "\<exists>n m evs r. dataslot_write cfg slot off src len s =
      (r, advance n m evs
            (program_transfer (ucast slot) off (CPU_TO_BRIDGE_ADDR cfg src) len (DS_CMD_WRITE cfg) s)) \<and>
      evs \<noteq> [] \<and> (\<exists>stl. verdict cfg stl r (last evs)) \<and>
      (\<forall>st e. WaitFinal st e \<in> set evs \<longrightarrow> last evs = WaitFinal st e)"
proof -
  let ?s5 = "program_transfer (ucast slot) off (CPU_TO_BRIDGE_ADDR cfg src) len (DS_CMD_WRITE cfg) s"
  from waiter_summary[of cfg ?s5] obtain n m evs r where
    run: "dataslot_wait_complete cfg ?s5 = (r, advance n m evs ?s5)" and
    ne: "evs \<noteq> []" and
    v: "verdict cfg (status_seq ?s5 (status_reads ?s5 + n - 1)) r (last evs)" and
    fin: "\<forall>st e. WaitFinal st e \<in> set evs \<longrightarrow> last evs = WaitFinal st e"
    by blast
  show ?thesis
    unfolding dataslot_write_valid[OF assms] using run ne v fin by blast
qed

text \<open>The returned code and a trace line that names its cause.\<close>

lemma verdict_cases:
  assumes "err_field_fits cfg" and "evs \<noteq> []" and "verdict cfg stl r (last evs)"
  shows "(WaitTimeoutClear 0 \<in> set evs \<and> r = - 3) \<or>
         (WaitTimeoutAck 0 \<in> set evs \<and> r = - 1) \<or>
         (\<exists>st. WaitTimeoutDone 0 st \<in> set evs \<and> r = - 2) \<or>
         (\<exists>st. WaitFinal st (uint (err_field cfg st)) \<in> set evs \<and> r = - uint (err_field cfg st))"
proof -
  have mem: "last evs \<in> set evs" using assms(2) by simp
  show ?thesis
  proof (cases "last evs")
    case (WaitTimeoutClear t)
    then show ?thesis using assms(3) mem by (simp add: verdict_def)
  next
    case (WaitTimeoutAck t)
    then show ?thesis using assms(3) mem by (simp add: verdict_def)
  next
    case (WaitTimeoutDone t st)
    then show ?thesis using assms(3) mem by (auto simp add: verdict_def)
  next
    case (WaitFinal st e)
    have "sint (err_field cfg st) = uint (err_field cfg st)"
      using err_field_bound[OF assms(1)] by (rule sint_small)
    then show ?thesis using WaitFinal assms(3) mem bridge_code_fits[OF assms(1)]
      by (auto simp add: verdict_def)
  qed (use assms(3) in \<open>simp_all add: verdict_def\<close>)
qed

subsection \<open>The staged file name\<close>

lemma padded_Nil: "padded n [] = replicate n 0"
  by (simp add: padded_def)

lemma padded_Suc_Cons: "padded (Suc n) (x # xs) = x # padded n xs"
  by (simp add: padded_def)

lemma strncpy_in_bounds:
  "i + n \<le> length dst \<Longrightarrow>
   strncpy dst i src n = Some (take i dst @ padded n (c_string src) @ drop (i + n) dst)"
proof (induction n arbitrary: dst i src)
  case 0
  then show ?case by (simp add: padded_def)
next
  case (Suc n)
  let ?c = "case src of [] \<Rightarrow> 0 | x # _ \<Rightarrow> x"
  let ?src' = "if ?c = 0 then [] else tl src"
  have i: "i < length dst" using Suc.prems by simp
  have len: "Suc i + n \<le> length (dst[i := ?c])" using Suc.prems by simp
  have step: "strncpy dst i src (Suc n) = strncpy (dst[i := ?c]) (Suc i) ?src' n"
    using i by (simp add: poke_def Let_def)
  have pre: "take (Suc i) (dst[i := ?c]) = take i dst @ [?c]"
    using i by (simp add: take_Suc_conv_app_nth)
  have post: "drop (Suc i + n) (dst[i := ?c]) = drop (i + Suc n) dst"
    by simp
  have pad: "?c # padded n (c_string ?src') = padded (Suc n) (c_string src)"
  proof (cases src)
    case Nil
    then show ?thesis by (simp add: c_string_def padded_Nil)
  next
    case (Cons x xs)
    then show ?thesis
      by (cases "x = 0") (simp_all add: c_string_def padded_Nil padded_Suc_Cons)
  qed
  have "strncpy dst i src (Suc n) =
          Some (take (Suc i) (dst[i := ?c]) @ padded n (c_string ?src') @ drop (Suc i + n) (dst[i := ?c]))"
    unfolding step by (rule Suc.IH[OF len])
  also have "\<dots> = Some (take i dst @ (?c # padded n (c_string ?src')) @ drop (i + Suc n) dst)"
    unfolding pre post by simp
  finally show ?case unfolding pad .
qed

lemma length_padded [simp]: "length (padded n str) = n"
  by (simp add: padded_def)

lemma stage_open_param_eq:
  "stage_open_param name fl sz =
     Some \<lparr> filename = padded 255 (c_string name) @ [0], flags = fl, size_param = sz \<rparr>"
proof -
  have "strncpy (replicate 256 0) 0 name 255 = Some (padded 255 (c_string name) @ [0])"
    using strncpy_in_bounds[of 0 255 "replicate 256 0" name] by simp
  moreover have "poke (padded 255 (c_string name) @ [0]) 255 0 = Some (padded 255 (c_string name) @ [0])"
    by (simp add: poke_def nth_append list_update_append)
  ultimately show ?thesis
    by (simp add: stage_open_param_def)
qed

lemma dataslot_open_file_summary:
  "\<exists>n m evs r s5. dataslot_open_file cfg name fl sz s = Some (r, advance n m evs s5) \<and>
      term_log s5 = term_log s \<and>
      param_buffer s5 =
        \<lparr> filename = padded 255 (c_string name) @ [0], flags = fl, size_param = sz \<rparr> \<and>
      evs \<noteq> [] \<and> (\<exists>stl. verdict cfg stl r (last evs))"
proof -
  let ?p = "\<lparr> filename = padded 255 (c_string name) @ [0], flags = fl, size_param = sz \<rparr>"
  let ?s5 = "s\<lparr>param_buffer := ?p, DS_SLOT_ID := 0,
               DS_PARAM_ADDR := CPU_TO_BRIDGE_ADDR cfg PARAM_BUFFER_ADDR,
               DS_RESP_ADDR := CPU_TO_BRIDGE_ADDR cfg RESP_BUFFER_ADDR,
               DS_COMMAND := DS_COMMAND s @ [DS_CMD_OPENFILE cfg]\<rparr>"
  have call: "dataslot_open_file cfg name fl sz s = Some (dataslot_wait_complete cfg ?s5)"
    by (simp add: dataslot_open_file_def stage_open_param_eq Let_def)
  from waiter_summary[of cfg ?s5] obtain n m evs r where
    run: "dataslot_wait_complete cfg ?s5 = (r, advance n m evs ?s5)" and
    ne: "evs \<noteq> []" and
    v: "verdict cfg (status_seq ?s5 (status_reads ?s5 + n - 1)) r (last evs)"
    by blast
  have "dataslot_open_file cfg name fl sz s = Some (r, advance n m evs ?s5)"
    using call run by simp
  moreover have "term_log ?s5 = term_log s" "param_buffer ?s5 = ?p" by simp_all
  ultimately show ?thesis using ne v by blast
qed

subsection \<open>Runs against the simulated bridges\<close>

lemma waiter_completes:
  assumes "status_seq s (Suc (status_reads s)) AND DS_STATUS_ACK cfg = 0"
    and "i < nat TIMEOUT_LOOPS"
    and "\<forall>k < i. status_seq s (status_reads s + 2 + k) AND DS_STATUS_ACK cfg = 0"
    and "status_seq s (status_reads s + 2 + i) AND DS_STATUS_ACK cfg \<noteq> 0"
    and "j < nat TIMEOUT_LOOPS"
    and "\<forall>k < j. status_seq s (status_reads s + 3 + i + k) AND DS_STATUS_DONE cfg = 0"
    and "status_seq s (status_reads s + 3 + i + j) AND DS_STATUS_DONE cfg \<noteq> 0"
  shows "dataslot_wait_complete cfg s =
     (bridge_code cfg (status_seq s (status_reads s + 4 + i + j)),
      advance (i + j + 5) (i + j + 2)
        [WaitInitial (status_seq s (status_reads s)), WaitGotAck, WaitGotDone,
         WaitFinal (status_seq s (status_reads s + 4 + i + j))
           (sint (err_field cfg (status_seq s (status_reads s + 4 + i + j))))] s)"
proof -
  let ?s1 = "advance 2 0 [WaitInitial (status_seq s (status_reads s))] s"
  let ?s2 = "advance (Suc i) (Suc i) [WaitGotAck] ?s1"
  have before: "\<forall>k < i. status_seq ?s1 (status_reads ?s1 + k) AND DS_STATUS_ACK cfg = 0"
    using assms(3) by simp
  have ack: "status_seq ?s1 (status_reads ?s1 + i) AND DS_STATUS_ACK cfg \<noteq> 0"
    using assms(4) by simp
  have nodone: "\<forall>k < j. status_seq ?s2 (status_reads ?s2 + k) AND DS_STATUS_DONE cfg = 0"
  proof (intro allI impI)
    fix k assume k: "k < j"
    have "status_reads ?s2 + k = status_reads s + 3 + i + k" by simp
    then show "status_seq ?s2 (status_reads ?s2 + k) AND DS_STATUS_DONE cfg = 0"
      using assms(6) k by (metis advance_sel(4))
  qed
  have dn: "status_seq ?s2 (status_reads ?s2 + j) AND DS_STATUS_DONE cfg \<noteq> 0"
  proof -
    have "status_reads ?s2 + j = status_reads s + 3 + i + j" by simp
    then show ?thesis using assms(7) by (metis advance_sel(4))
  qed
  have fin: "status_reads ?s2 + Suc j = status_reads s + 4 + i + j" by simp
  show ?thesis
    unfolding waiter_fresh[OF assms(1)] wait_ack_exit[OF assms(2) before ack]
      wait_done_exit[OF assms(5) nodone dn] fin
    by (simp add: add.commute add.left_commute numeral_2_eq_2)
qed

lemma idle_device_sel [simp]:
  "status_seq (idle_device sq) = sq" "status_reads (idle_device sq) = 0"
  "spins (idle_device sq) = 0" "term_log (idle_device sq) = []"
  "DS_COMMAND (idle_device sq) = []"
  by (simp_all add: idle_device_def)

lemma completes_bits:
  "(3 OR push_bit 2 e) AND (1::u32) = 1" "(3 OR push_bit 2 e) AND (2::u32) = 2"
  by (rule bit_word_eqI; auto simp add: bit_simps)+

lemma waiter_on_completes:
  "dataslot_wait_complete example_config (idle_device (completes e)) =
     (bridge_code example_config (3 OR push_bit 2 e),
      advance 6 3
        [WaitInitial 0, WaitGotAck, WaitGotDone,
         WaitFinal (3 OR push_bit 2 e) (sint (err_field example_config (3 OR push_bit 2 e)))]
        (idle_device (completes e)))"
  using waiter_completes[of "idle_device (completes e)" example_config 1 0]
  by (simp add: completes_def example_config_def TIMEOUT_LOOPS_def completes_bits)


lemma waiter_silent:
  assumes "status_seq s = silent"
  shows "dataslot_wait_complete cfg s =
     (- 1, advance (nat TIMEOUT_LOOPS + 2) (nat TIMEOUT_LOOPS)
             [WaitInitial 0, WaitTimeoutAck 0] s)"
proof -
  let ?s1 = "advance 2 0 [WaitInitial (status_seq s (status_reads s))] s"
  have a: "status_seq s (Suc (status_reads s)) AND DS_STATUS_ACK cfg = 0"
    by (simp add: assms silent_def)
  have b: "\<forall>k < nat TIMEOUT_LOOPS. status_seq ?s1 (status_reads ?s1 + k) AND DS_STATUS_ACK cfg = 0"
    by (simp add: assms silent_def)
  show ?thesis
    unfolding waiter_fresh[OF a] wait_ack_timeout[OF b]
    by (simp add: assms silent_def add.commute)
qed

lemma read_on_silent:
  assumes "0x10000000 \<le> dest" "dest < 0x14000000"
  shows "dataslot_read cfg slot off dest len (idle_device silent) =
     (- 1, advance (nat TIMEOUT_LOOPS + 4) (nat TIMEOUT_LOOPS)
        [ReadParams slot off (CPU_TO_BRIDGE_ADDR cfg dest) len, ReadStatusBefore 0,
         WaitInitial 0, WaitTimeoutAck 0, ReadStatusAfter 0 (- 1), ReadData dest]
        (program_transfer slot off (CPU_TO_BRIDGE_ADDR cfg dest) len (DS_CMD_READ cfg)
           (idle_device silent)))"
proof -
  let ?s8 = "program_transfer slot off (CPU_TO_BRIDGE_ADDR cfg dest) len (DS_CMD_READ cfg)
           (advance 1 0 [ReadParams slot off (CPU_TO_BRIDGE_ADDR cfg dest) len,
              ReadStatusBefore (status_seq (idle_device silent) (status_reads (idle_device silent)))]
              (idle_device silent))"
  have "status_seq ?s8 = silent" by simp
  from waiter_silent[OF this, of cfg]
  have "dataslot_read cfg slot off dest len (idle_device silent) =
      (- 1, advance 1 0 [ReadStatusAfter
            (status_seq (advance (nat TIMEOUT_LOOPS + 2) (nat TIMEOUT_LOOPS)
                            [WaitInitial 0, WaitTimeoutAck 0] ?s8)
               (status_reads (advance (nat TIMEOUT_LOOPS + 2) (nat TIMEOUT_LOOPS)
                            [WaitInitial 0, WaitTimeoutAck 0] ?s8))) (- 1), ReadData dest]
            (advance (nat TIMEOUT_LOOPS + 2) (nat TIMEOUT_LOOPS)
                            [WaitInitial 0, WaitTimeoutAck 0] ?s8))"
    using assms by (intro dataslot_read_valid)
  then show ?thesis
    by (simp add: program_transfer_advance silent_def add.commute)
qed

lemma read_on_completes:
  assumes "0x10000000 \<le> dest" "dest < 0x14000000"
  shows "dataslot_read example_config slot off dest len (idle_device (completes e)) =
     (bridge_code example_config (3 OR push_bit 2 e),
      advance 7 2
        [ReadParams slot off (dest - 0x10000000) len, ReadStatusBefore 0,
         WaitInitial 0, WaitGotAck, WaitGotDone,
         WaitFinal (3 OR push_bit 2 e) (sint (err_field example_config (3 OR push_bit 2 e))),
         ReadStatusAfter (3 OR push_bit 2 e) (bridge_code example_config (3 OR push_bit 2 e)),
         ReadData dest]
        (program_transfer slot off (dest - 0x10000000) len 0x180 (idle_device (completes e))))"
proof -
  let ?s8 = "program_transfer slot off (CPU_TO_BRIDGE_ADDR example_config dest) len
           (DS_CMD_READ example_config)
           (advance 1 0 [ReadParams slot off (CPU_TO_BRIDGE_ADDR example_config dest) len,
              ReadStatusBefore (status_seq (idle_device (completes e))
                                  (status_reads (idle_device (completes e))))]
              (idle_device (completes e)))"
  let ?st = "3 OR push_bit 2 e :: u32"
  let ?s9 = "advance 5 2 [WaitInitial 0, WaitGotAck, WaitGotDone,
               WaitFinal ?st (sint (err_field example_config ?st))] ?s8"
  have w: "dataslot_wait_complete example_config ?s8 = (bridge_code example_config ?st, ?s9)"
    using waiter_completes[of ?s8 example_config 0 0]
    by (simp add: completes_def example_config_def TIMEOUT_LOOPS_def completes_bits)
  have "dataslot_read example_config slot off dest len (idle_device (completes e)) =
      (bridge_code example_config ?st,
       advance 1 0 [ReadStatusAfter (status_seq ?s9 (status_reads ?s9))
                      (bridge_code example_config ?st), ReadData dest] ?s9)"
    using assms w by (rule dataslot_read_valid)
  then show ?thesis
    by (simp add: program_transfer_advance completes_def example_config_def)
qed

lemma bridge_code_examples:
  "bridge_code example_config 3 = 0" "sint (err_field example_config 3) = 0"
  "bridge_code example_config 7 = - 1" "sint (err_field example_config 7) = 1"
  by (simp_all add: bridge_code_def err_field_def example_config_def int32_def)

text \<open>Both ways into the acknowledgment loop, after \<open>a\<close> status reads.\<close>

lemma reaches_ack_loop:
  assumes "(status_seq s (status_reads s + 1) AND DS_STATUS_ACK cfg = 0 \<and> a = 2) \<or>
           (status_seq s (status_reads s + 1) AND DS_STATUS_ACK cfg \<noteq> 0 \<and>
            h < nat TIMEOUT_LOOPS \<and>
            (\<forall>k < h. status_seq s (status_reads s + 2 + k) AND DS_STATUS_ACK cfg \<noteq> 0) \<and>
            status_seq s (status_reads s + 2 + h) AND DS_STATUS_ACK cfg = 0 \<and> a = h + 3)"
  shows "\<exists>m evs. dataslot_wait_complete cfg s = wait_ack cfg (advance a m evs s)"
  using assms
proof (elim disjE conjE)
  assume "status_seq s (status_reads s + 1) AND DS_STATUS_ACK cfg = 0" and a: "a = 2"
  then have "status_seq s (Suc (status_reads s)) AND DS_STATUS_ACK cfg = 0" by simp
  from waiter_fresh[OF this] show ?thesis unfolding a by blast
next
  assume s1: "status_seq s (status_reads s + 1) AND DS_STATUS_ACK cfg \<noteq> 0"
    and h: "h < nat TIMEOUT_LOOPS"
    and before: "\<forall>k < h. status_seq s (status_reads s + 2 + k) AND DS_STATUS_ACK cfg \<noteq> 0"
    and clear: "status_seq s (status_reads s + 2 + h) AND DS_STATUS_ACK cfg = 0"
    and a: "a = h + 3"
  from s1 have "status_seq s (Suc (status_reads s)) AND DS_STATUS_ACK cfg \<noteq> 0" by simp
  from waiter_stale_exit[OF this h before clear] show ?thesis unfolding a by blast
qed

lemma wait_ack_then_done_timeout:
  assumes "i < nat TIMEOUT_LOOPS"
    and "\<forall>k < i. status_seq s (status_reads s + k) AND DS_STATUS_ACK cfg = 0"
    and "status_seq s (status_reads s + i) AND DS_STATUS_ACK cfg \<noteq> 0"
    and "\<forall>k < nat TIMEOUT_LOOPS.
           status_seq s (status_reads s + i + 1 + k) AND DS_STATUS_DONE cfg = 0"
  shows "fst (wait_ack cfg s) = - 2"
proof -
  let ?s2 = "advance (Suc i) (Suc i) [WaitGotAck] s"
  have nodone: "\<forall>k < nat TIMEOUT_LOOPS. status_seq ?s2 (status_reads ?s2 + k) AND DS_STATUS_DONE cfg = 0"
  proof (intro allI impI)
    fix k assume k: "k < nat TIMEOUT_LOOPS"
    have "status_reads s + i + 1 + k = status_reads ?s2 + k" by simp
    then show "status_seq ?s2 (status_reads ?s2 + k) AND DS_STATUS_DONE cfg = 0"
      using assms(4) k by (metis advance_sel(4))
  qed
  show ?thesis
    by (simp only: wait_ack_exit[OF assms(1,2,3)] wait_done_timeout[OF nodone] fst_conv)
qed

lemma waiter_on_early_ack:
  "fst (dataslot_wait_complete example_config (idle_device early_ack)) = - 3"
proof -
  have a: "status_seq (idle_device early_ack) (Suc (status_reads (idle_device early_ack)))
             AND DS_STATUS_ACK example_config \<noteq> 0"
    by (simp add: early_ack_def example_config_def)
  have b: "\<forall>k < nat TIMEOUT_LOOPS.
             status_seq (idle_device early_ack) (status_reads (idle_device early_ack) + 2 + k)
               AND DS_STATUS_ACK example_config \<noteq> 0"
    by (simp add: early_ack_def example_config_def)
  show ?thesis by (simp add: waiter_stale_timeout[OF a b])
qed

section \<open>The claims\<close>

text \<open>
  C1. The draining phase of \<open>dataslot_wait_complete\<close> is entered (its line
  "ACK high, waiting to clear" is printed) exactly when the status sampled at
  line 29, at the start of the call, has the ACK bit set. If ACK is set at that
  sample and at each of the \<open>TIMEOUT_LOOPS\<close> polls of the draining loop, the waiter
  returns \<open>-3\<close> (timeout during clear), not a success.
\<close>

theorem stale_ack_draining:
  "(WaitAckHigh \<in> set (emitted s (snd (dataslot_wait_complete cfg s))) \<longleftrightarrow>
      status_seq s (Suc (status_reads s)) AND DS_STATUS_ACK cfg \<noteq> 0) \<and>
   ((\<forall>k. 1 \<le> k \<and> k \<le> nat TIMEOUT_LOOPS + 1 \<longrightarrow>
          status_seq s (status_reads s + k) AND DS_STATUS_ACK cfg \<noteq> 0) \<longrightarrow>
      fst (dataslot_wait_complete cfg s) = - 3)"
proof (intro conjI impI)
  from waiter_summary[of cfg s] obtain n m evs r where
    "dataslot_wait_complete cfg s = (r, advance n m evs s)"
    "WaitAckHigh \<in> set evs \<longleftrightarrow> status_seq s (Suc (status_reads s)) AND DS_STATUS_ACK cfg \<noteq> 0"
    by blast
  then show "WaitAckHigh \<in> set (emitted s (snd (dataslot_wait_complete cfg s))) \<longleftrightarrow>
      status_seq s (Suc (status_reads s)) AND DS_STATUS_ACK cfg \<noteq> 0"
    by simp
next
  assume a: "\<forall>k. 1 \<le> k \<and> k \<le> nat TIMEOUT_LOOPS + 1 \<longrightarrow>
          status_seq s (status_reads s + k) AND DS_STATUS_ACK cfg \<noteq> 0"
  have s1: "status_seq s (Suc (status_reads s)) AND DS_STATUS_ACK cfg \<noteq> 0"
    using a[rule_format, of 1] by simp
  have rest: "\<forall>k < nat TIMEOUT_LOOPS. status_seq s (status_reads s + 2 + k) AND DS_STATUS_ACK cfg \<noteq> 0"
  proof (intro allI impI)
    fix k assume "k < nat TIMEOUT_LOOPS"
    then have "1 \<le> 2 + k \<and> 2 + k \<le> nat TIMEOUT_LOOPS + 1" by simp
    from a[rule_format, OF this] show "status_seq s (status_reads s + 2 + k) AND DS_STATUS_ACK cfg \<noteq> 0"
      by (simp add: add.assoc)
  qed
  show "fst (dataslot_wait_complete cfg s) = - 3"
    by (simp add: waiter_stale_timeout[OF s1 rest])
qed

theorem stale_ack_draining_witness:
  "(WaitAckHigh \<in> set (emitted (idle_device stuck_ack)
        (snd (dataslot_wait_complete example_config (idle_device stuck_ack))))) \<and>
   fst (dataslot_wait_complete example_config (idle_device stuck_ack)) = - 3"
  using stale_ack_draining[of "idle_device stuck_ack" example_config]
  by (simp add: idle_device_def stuck_ack_def example_config_def)

text \<open>
  C2 (as the code has it). A bridge that never sets ACK makes the waiter return
  \<open>-1\<close>. Every call either finds ACK set at the sample of line 29 and at all
  polls of the draining loop, and then returns \<open>-3\<close>, or reaches the
  acknowledgment loop after \<open>a\<close> status reads: \<open>a = 2\<close> when the sample has ACK
  clear, \<open>a = h + 3\<close> when a stale ACK clears at drain poll \<open>h\<close>. From there, ACK
  clear at all \<open>TIMEOUT_LOOPS\<close> acknowledgment polls gives \<open>-1\<close>, and ACK seen at
  an acknowledgment poll with DONE clear at all \<open>TIMEOUT_LOOPS\<close> completion polls
  gives \<open>-2\<close>.
\<close>

theorem phase_isolation:
  "((\<forall>k. 1 \<le> k \<and> k \<le> nat TIMEOUT_LOOPS + 1 \<longrightarrow>
        status_seq s (status_reads s + k) AND DS_STATUS_ACK cfg = 0) \<longrightarrow>
      fst (dataslot_wait_complete cfg s) = - 1) \<and>
   ((status_seq s (status_reads s + 1) AND DS_STATUS_ACK cfg \<noteq> 0 \<and>
     (\<forall>k < nat TIMEOUT_LOOPS. status_seq s (status_reads s + 2 + k) AND DS_STATUS_ACK cfg \<noteq> 0)) \<or>
    (\<exists>a' h'.
       (status_seq s (status_reads s + 1) AND DS_STATUS_ACK cfg = 0 \<and> a' = 2) \<or>
       (status_seq s (status_reads s + 1) AND DS_STATUS_ACK cfg \<noteq> 0 \<and>
        h' < nat TIMEOUT_LOOPS \<and>
        (\<forall>k < h'. status_seq s (status_reads s + 2 + k) AND DS_STATUS_ACK cfg \<noteq> 0) \<and>
        status_seq s (status_reads s + 2 + h') AND DS_STATUS_ACK cfg = 0 \<and> a' = h' + 3))) \<and>
   (status_seq s (status_reads s + 1) AND DS_STATUS_ACK cfg \<noteq> 0 \<and>
    (\<forall>k < nat TIMEOUT_LOOPS. status_seq s (status_reads s + 2 + k) AND DS_STATUS_ACK cfg \<noteq> 0) \<longrightarrow>
      fst (dataslot_wait_complete cfg s) = - 3) \<and>
   ((status_seq s (status_reads s + 1) AND DS_STATUS_ACK cfg = 0 \<and> a = 2) \<or>
    (status_seq s (status_reads s + 1) AND DS_STATUS_ACK cfg \<noteq> 0 \<and>
     h < nat TIMEOUT_LOOPS \<and>
     (\<forall>k < h. status_seq s (status_reads s + 2 + k) AND DS_STATUS_ACK cfg \<noteq> 0) \<and>
     status_seq s (status_reads s + 2 + h) AND DS_STATUS_ACK cfg = 0 \<and> a = h + 3) \<longrightarrow>
      ((\<forall>k < nat TIMEOUT_LOOPS. status_seq s (status_reads s + a + k) AND DS_STATUS_ACK cfg = 0) \<longrightarrow>
         fst (dataslot_wait_complete cfg s) = - 1) \<and>
      (i < nat TIMEOUT_LOOPS \<and>
       (\<forall>k < i. status_seq s (status_reads s + a + k) AND DS_STATUS_ACK cfg = 0) \<and>
       status_seq s (status_reads s + a + i) AND DS_STATUS_ACK cfg \<noteq> 0 \<and>
       (\<forall>k < nat TIMEOUT_LOOPS.
          status_seq s (status_reads s + a + i + 1 + k) AND DS_STATUS_DONE cfg = 0) \<longrightarrow>
         fst (dataslot_wait_complete cfg s) = - 2))"
proof (intro conjI)
  show "(\<forall>k. 1 \<le> k \<and> k \<le> nat TIMEOUT_LOOPS + 1 \<longrightarrow>
        status_seq s (status_reads s + k) AND DS_STATUS_ACK cfg = 0) \<longrightarrow>
      fst (dataslot_wait_complete cfg s) = - 1"
  proof
    assume a: "\<forall>k. 1 \<le> k \<and> k \<le> nat TIMEOUT_LOOPS + 1 \<longrightarrow>
        status_seq s (status_reads s + k) AND DS_STATUS_ACK cfg = 0"
    let ?s1 = "advance 2 0 [WaitInitial (status_seq s (status_reads s))] s"
    have s1: "status_seq s (Suc (status_reads s)) AND DS_STATUS_ACK cfg = 0"
      using a[rule_format, of 1] by simp
    have rest: "\<forall>k < nat TIMEOUT_LOOPS. status_seq ?s1 (status_reads ?s1 + k) AND DS_STATUS_ACK cfg = 0"
    proof (intro allI impI)
      fix k assume "k < nat TIMEOUT_LOOPS"
      then have "1 \<le> 2 + k \<and> 2 + k \<le> nat TIMEOUT_LOOPS + 1" by simp
      from a[rule_format, OF this]
      show "status_seq ?s1 (status_reads ?s1 + k) AND DS_STATUS_ACK cfg = 0"
        by (simp add: add.assoc)
    qed
    show "fst (dataslot_wait_complete cfg s) = - 1"
      by (simp add: waiter_fresh[OF s1] wait_ack_timeout[OF rest])
  qed
next
  show "(status_seq s (status_reads s + 1) AND DS_STATUS_ACK cfg \<noteq> 0 \<and>
     (\<forall>k < nat TIMEOUT_LOOPS. status_seq s (status_reads s + 2 + k) AND DS_STATUS_ACK cfg \<noteq> 0)) \<or>
    (\<exists>a' h'.
       (status_seq s (status_reads s + 1) AND DS_STATUS_ACK cfg = 0 \<and> a' = 2) \<or>
       (status_seq s (status_reads s + 1) AND DS_STATUS_ACK cfg \<noteq> 0 \<and>
        h' < nat TIMEOUT_LOOPS \<and>
        (\<forall>k < h'. status_seq s (status_reads s + 2 + k) AND DS_STATUS_ACK cfg \<noteq> 0) \<and>
        status_seq s (status_reads s + 2 + h') AND DS_STATUS_ACK cfg = 0 \<and> a' = h' + 3))"
  proof (cases "status_seq s (status_reads s + 1) AND DS_STATUS_ACK cfg = 0")
    case True
    then show ?thesis by blast
  next
    case False
    let ?s3 = "advance 2 0 [] s"
    show ?thesis
    proof (cases rule: spin_budget_cases[of "\<lambda>st. st AND DS_STATUS_ACK cfg \<noteq> 0" ?s3])
      case expired
      then have "\<forall>k < nat TIMEOUT_LOOPS. status_seq s (status_reads s + 2 + k) AND DS_STATUS_ACK cfg \<noteq> 0"
        by simp
      then show ?thesis using False by blast
    next
      case (exit j)
      have "j < nat TIMEOUT_LOOPS" by (rule exit(1))
      moreover have "\<forall>k < j. status_seq s (status_reads s + 2 + k) AND DS_STATUS_ACK cfg \<noteq> 0"
        using exit(2) by simp
      moreover have "status_seq s (status_reads s + 2 + j) AND DS_STATUS_ACK cfg = 0"
        using exit(3) by simp
      ultimately show ?thesis using False by blast
    qed
  qed
next
  show "status_seq s (status_reads s + 1) AND DS_STATUS_ACK cfg \<noteq> 0 \<and>
    (\<forall>k < nat TIMEOUT_LOOPS. status_seq s (status_reads s + 2 + k) AND DS_STATUS_ACK cfg \<noteq> 0) \<longrightarrow>
      fst (dataslot_wait_complete cfg s) = - 3"
  proof
    assume a: "status_seq s (status_reads s + 1) AND DS_STATUS_ACK cfg \<noteq> 0 \<and>
      (\<forall>k < nat TIMEOUT_LOOPS. status_seq s (status_reads s + 2 + k) AND DS_STATUS_ACK cfg \<noteq> 0)"
    then have s1: "status_seq s (Suc (status_reads s)) AND DS_STATUS_ACK cfg \<noteq> 0" by simp
    have rest: "\<forall>k < nat TIMEOUT_LOOPS. status_seq s (status_reads s + 2 + k) AND DS_STATUS_ACK cfg \<noteq> 0"
      using a by blast
    show "fst (dataslot_wait_complete cfg s) = - 3"
      by (simp add: waiter_stale_timeout[OF s1 rest])
  qed
next
  show "(status_seq s (status_reads s + 1) AND DS_STATUS_ACK cfg = 0 \<and> a = 2) \<or>
    (status_seq s (status_reads s + 1) AND DS_STATUS_ACK cfg \<noteq> 0 \<and>
     h < nat TIMEOUT_LOOPS \<and>
     (\<forall>k < h. status_seq s (status_reads s + 2 + k) AND DS_STATUS_ACK cfg \<noteq> 0) \<and>
     status_seq s (status_reads s + 2 + h) AND DS_STATUS_ACK cfg = 0 \<and> a = h + 3) \<longrightarrow>
      ((\<forall>k < nat TIMEOUT_LOOPS. status_seq s (status_reads s + a + k) AND DS_STATUS_ACK cfg = 0) \<longrightarrow>
         fst (dataslot_wait_complete cfg s) = - 1) \<and>
      (i < nat TIMEOUT_LOOPS \<and>
       (\<forall>k < i. status_seq s (status_reads s + a + k) AND DS_STATUS_ACK cfg = 0) \<and>
       status_seq s (status_reads s + a + i) AND DS_STATUS_ACK cfg \<noteq> 0 \<and>
       (\<forall>k < nat TIMEOUT_LOOPS.
          status_seq s (status_reads s + a + i + 1 + k) AND DS_STATUS_DONE cfg = 0) \<longrightarrow>
         fst (dataslot_wait_complete cfg s) = - 2)"
  proof (intro impI conjI)
    assume route: "(status_seq s (status_reads s + 1) AND DS_STATUS_ACK cfg = 0 \<and> a = 2) \<or>
      (status_seq s (status_reads s + 1) AND DS_STATUS_ACK cfg \<noteq> 0 \<and>
       h < nat TIMEOUT_LOOPS \<and>
       (\<forall>k < h. status_seq s (status_reads s + 2 + k) AND DS_STATUS_ACK cfg \<noteq> 0) \<and>
       status_seq s (status_reads s + 2 + h) AND DS_STATUS_ACK cfg = 0 \<and> a = h + 3)"
    from reaches_ack_loop[OF route] obtain m evs where
      w: "dataslot_wait_complete cfg s = wait_ack cfg (advance a m evs s)" by blast
    let ?s1 = "advance a m evs s"
    {
      assume noack: "\<forall>k < nat TIMEOUT_LOOPS. status_seq s (status_reads s + a + k) AND DS_STATUS_ACK cfg = 0"
      then have "\<forall>k < nat TIMEOUT_LOOPS. status_seq ?s1 (status_reads ?s1 + k) AND DS_STATUS_ACK cfg = 0"
        by simp
      from wait_ack_timeout[OF this] show "fst (dataslot_wait_complete cfg s) = - 1"
        unfolding w by simp
    }
    {
      assume b: "i < nat TIMEOUT_LOOPS \<and>
       (\<forall>k < i. status_seq s (status_reads s + a + k) AND DS_STATUS_ACK cfg = 0) \<and>
       status_seq s (status_reads s + a + i) AND DS_STATUS_ACK cfg \<noteq> 0 \<and>
       (\<forall>k < nat TIMEOUT_LOOPS.
          status_seq s (status_reads s + a + i + 1 + k) AND DS_STATUS_DONE cfg = 0)"
      have i: "i < nat TIMEOUT_LOOPS" using b by blast
      have before: "\<forall>k < i. status_seq ?s1 (status_reads ?s1 + k) AND DS_STATUS_ACK cfg = 0"
        using b by simp
      have ack: "status_seq ?s1 (status_reads ?s1 + i) AND DS_STATUS_ACK cfg \<noteq> 0"
        using b by simp
      have nodone: "\<forall>k < nat TIMEOUT_LOOPS.
           status_seq ?s1 (status_reads ?s1 + i + 1 + k) AND DS_STATUS_DONE cfg = 0"
        using b by simp
      from wait_ack_then_done_timeout[OF i before ack nodone]
      show "fst (dataslot_wait_complete cfg s) = - 2"
        unfolding w .
    }
  qed
qed

theorem phase_isolation_witness:
  "fst (dataslot_wait_complete example_config (idle_device silent)) = - 1 \<and>
   fst (dataslot_wait_complete example_config (idle_device ack_only)) = - 2 \<and>
   fst (dataslot_wait_complete example_config (idle_device drained_ack)) = - 2 \<and>
   fst (dataslot_wait_complete example_config (idle_device stuck_ack)) = - 3"
proof -
  have a: "fst (dataslot_wait_complete example_config (idle_device silent)) = - 1"
    using phase_isolation[of "idle_device silent" example_config 2 0 0]
    by (simp add: silent_def example_config_def)
  have b: "fst (dataslot_wait_complete example_config (idle_device ack_only)) = - 2"
    using phase_isolation[of "idle_device ack_only" example_config 2 0 1]
    by (simp add: ack_only_def example_config_def TIMEOUT_LOOPS_def)
  have c: "fst (dataslot_wait_complete example_config (idle_device drained_ack)) = - 2"
    using phase_isolation[of "idle_device drained_ack" example_config 4 1 0]
    by (simp add: drained_ack_def example_config_def TIMEOUT_LOOPS_def)
  have d: "fst (dataslot_wait_complete example_config (idle_device stuck_ack)) = - 3"
    using phase_isolation[of "idle_device stuck_ack" example_config 2 0 0]
    by (simp add: stuck_ack_def example_config_def)
  show ?thesis using a b c d by simp
qed

theorem phase_isolation_counterexample:
  "early_ack 0 AND DS_STATUS_ACK example_config = 0 \<and>
   early_ack 1 AND DS_STATUS_ACK example_config \<noteq> 0 \<and>
   fst (dataslot_wait_complete example_config (idle_device early_ack)) = - 3 \<and>
   fst (dataslot_wait_complete example_config (idle_device early_ack)) \<noteq> - 2"
proof -
  have bits: "early_ack 0 AND DS_STATUS_ACK example_config = 0"
    "early_ack 1 AND DS_STATUS_ACK example_config \<noteq> 0"
    by (simp_all add: early_ack_def example_config_def)
  show ?thesis using bits by (simp add: waiter_on_early_ack)
qed

text \<open>
  C3. Whenever a run of the waiter observes DONE (prints "got DONE"), it returns 0
  if the error field of the final status read is zero and \<open>-e\<close> if the field is
  \<open>e \<noteq> 0\<close>, for every value of a field narrower than 32 bits.
\<close>

theorem error_propagation:
  assumes "err_field_fits cfg"
    and "WaitGotDone \<in> set (emitted s (snd (dataslot_wait_complete cfg s)))"
  shows "fst (dataslot_wait_complete cfg s) =
     (let e = err_field cfg (status_seq s (status_reads (snd (dataslot_wait_complete cfg s)) - 1))
      in if e = 0 then 0 else - uint e)"
proof -
  from waiter_summary[of cfg s] obtain n m evs r where
    run: "dataslot_wait_complete cfg s = (r, advance n m evs s)" and
    v: "verdict cfg (status_seq s (status_reads s + n - 1)) r (last evs)" and
    gd: "WaitGotDone \<in> set evs \<longleftrightarrow> (\<exists>st e. last evs = WaitFinal st e)"
    by blast
  from assms(2) run gd obtain st e where l: "last evs = WaitFinal st e" by auto
  from v l have "r = bridge_code cfg (status_seq s (status_reads s + n - 1))"
    by (simp add: verdict_def)
  then show ?thesis using run bridge_code_fits[OF assms(1)]
    by (simp add: Let_def)
qed

theorem error_propagation_witness:
  "err_field_fits example_config \<and>
   WaitGotDone \<in> set (emitted (idle_device (completes 3))
      (snd (dataslot_wait_complete example_config (idle_device (completes 3))))) \<and>
   err_field example_config (completes 3 5) = 3 \<and>
   fst (dataslot_wait_complete example_config (idle_device (completes 3))) = - 3"
proof -
  have g: "WaitGotDone \<in> set (emitted (idle_device (completes 3))
      (snd (dataslot_wait_complete example_config (idle_device (completes 3)))))"
    by (simp add: waiter_on_completes)
  have r: "status_reads (snd (dataslot_wait_complete example_config (idle_device (completes 3)))) = 6"
    by (simp add: waiter_on_completes)
  have e: "err_field example_config (completes 3 5) = 3"
    by (simp add: err_field_def example_config_def completes_def)
  show ?thesis
    using error_propagation[OF example_fits g] g e
    by (simp add: r example_fits)
qed

text \<open>
  C4. A \<open>dataslot_read\<close> or \<open>dataslot_write\<close> whose buffer address lies outside
  \<open>[0x10000000, 0x14000000)\<close> returns \<open>-10\<close> and leaves the whole device state
  as it was: no register is written, no command is triggered, the status
  register is not even read.
\<close>

theorem address_rejection:
  assumes "addr < 0x10000000 \<or> 0x14000000 \<le> addr"
  shows "dataslot_read cfg slot off addr len s = (- 10, s) \<and>
         dataslot_write cfg wslot off addr len s = (- 10, s)"
  using assms by (simp add: dataslot_read_invalid dataslot_write_invalid)

theorem address_rejection_witness:
  "((0x14000000 :: u32) < 0x10000000 \<or> (0x14000000 :: u32) \<le> 0x14000000) \<and>
   dataslot_read example_config 1 0 0x14000000 16 (idle_device (completes 0)) =
     (- 10, idle_device (completes 0)) \<and>
   dataslot_write example_config 1 0 0x14000000 16 (idle_device (completes 0)) =
     (- 10, idle_device (completes 0))"
  using address_rejection[of "0x14000000" example_config 1 0 16 "idle_device (completes 0)" 1]
  by simp

text \<open>
  C5 (as the code has it). With an error field narrower than 32 bits, every
  result of \<open>dataslot_read\<close>, \<open>dataslot_write\<close> and \<open>dataslot_open_file\<close> is one
  of: \<open>-10\<close> for a rejected address, \<open>-3\<close>, \<open>-1\<close>, \<open>-2\<close> for a timeout of the
  clear, acknowledgment and completion phase, and \<open>-e\<close> for a completed command
  whose error field is \<open>e\<close> (0 on success). The codes of the bridge are not kept
  apart from the four fixed codes.
\<close>

theorem failure_codes:
  assumes "err_field_fits cfg"
  shows "(let (r, s') = dataslot_read cfg slot off addr len s; E = set (emitted s s')
          in ((addr < 0x10000000 \<or> 0x14000000 \<le> addr) \<and> r = - 10 \<and> s' = s) \<or>
             (WaitTimeoutClear 0 \<in> E \<and> r = - 3) \<or>
             (WaitTimeoutAck 0 \<in> E \<and> r = - 1) \<or>
             (\<exists>st. WaitTimeoutDone 0 st \<in> E \<and> r = - 2) \<or>
             (\<exists>st. WaitFinal st (uint (err_field cfg st)) \<in> E \<and> r = - uint (err_field cfg st))) \<and>
         (let (r, s') = dataslot_write cfg wslot off addr len s; E = set (emitted s s')
          in ((addr < 0x10000000 \<or> 0x14000000 \<le> addr) \<and> r = - 10 \<and> s' = s) \<or>
             (WaitTimeoutClear 0 \<in> E \<and> r = - 3) \<or>
             (WaitTimeoutAck 0 \<in> E \<and> r = - 1) \<or>
             (\<exists>st. WaitTimeoutDone 0 st \<in> E \<and> r = - 2) \<or>
             (\<exists>st. WaitFinal st (uint (err_field cfg st)) \<in> E \<and> r = - uint (err_field cfg st))) \<and>
         (case dataslot_open_file cfg name fl sz s of
            None \<Rightarrow> False
          | Some (r, s') \<Rightarrow>
             (WaitTimeoutClear 0 \<in> set (emitted s s') \<and> r = - 3) \<or>
             (WaitTimeoutAck 0 \<in> set (emitted s s') \<and> r = - 1) \<or>
             (\<exists>st. WaitTimeoutDone 0 st \<in> set (emitted s s') \<and> r = - 2) \<or>
             (\<exists>st. WaitFinal st (uint (err_field cfg st)) \<in> set (emitted s s') \<and>
                   r = - uint (err_field cfg st)))"
proof -
  have A: "(let (r, s') = dataslot_read cfg slot off addr len s; E = set (emitted s s')
          in ((addr < 0x10000000 \<or> 0x14000000 \<le> addr) \<and> r = - 10 \<and> s' = s) \<or>
             (WaitTimeoutClear 0 \<in> E \<and> r = - 3) \<or>
             (WaitTimeoutAck 0 \<in> E \<and> r = - 1) \<or>
             (\<exists>st. WaitTimeoutDone 0 st \<in> E \<and> r = - 2) \<or>
             (\<exists>st. WaitFinal st (uint (err_field cfg st)) \<in> E \<and> r = - uint (err_field cfg st)))"
  proof (cases "addr < 0x10000000 \<or> 0x14000000 \<le> addr")
    case True
    then show ?thesis by (simp add: dataslot_read_invalid)
  next
    case False
    then have valid: "0x10000000 \<le> addr" "addr < 0x14000000" by (auto simp add: not_less not_le)
    from dataslot_read_summary[OF valid, of cfg slot off len s] obtain n m evs r st' where
      rd: "dataslot_read cfg slot off addr len s =
        (r, advance (n + 2) m
              ([ReadParams slot off (CPU_TO_BRIDGE_ADDR cfg addr) len,
                ReadStatusBefore (status_seq s (status_reads s))] @ evs @
               [ReadStatusAfter st' r, ReadData addr])
              (program_transfer slot off (CPU_TO_BRIDGE_ADDR cfg addr) len (DS_CMD_READ cfg) s))" and
      ne: "evs \<noteq> []" and v: "\<exists>stl. verdict cfg stl r (last evs)"
      by blast
    from v obtain stl where "verdict cfg stl r (last evs)" by blast
    from verdict_cases[OF assms ne this] show ?thesis
      unfolding rd by (simp add: Let_def)
  qed
  have B: "(let (r, s') = dataslot_write cfg wslot off addr len s; E = set (emitted s s')
          in ((addr < 0x10000000 \<or> 0x14000000 \<le> addr) \<and> r = - 10 \<and> s' = s) \<or>
             (WaitTimeoutClear 0 \<in> E \<and> r = - 3) \<or>
             (WaitTimeoutAck 0 \<in> E \<and> r = - 1) \<or>
             (\<exists>st. WaitTimeoutDone 0 st \<in> E \<and> r = - 2) \<or>
             (\<exists>st. WaitFinal st (uint (err_field cfg st)) \<in> E \<and> r = - uint (err_field cfg st)))"
  proof (cases "addr < 0x10000000 \<or> 0x14000000 \<le> addr")
    case True
    then show ?thesis by (simp add: dataslot_write_invalid)
  next
    case False
    then have valid: "0x10000000 \<le> addr" "addr < 0x14000000" by (auto simp add: not_less not_le)
    from dataslot_write_summary[OF valid, of cfg wslot off len s] obtain n m evs r where
      wr: "dataslot_write cfg wslot off addr len s =
        (r, advance n m evs
              (program_transfer (ucast wslot) off (CPU_TO_BRIDGE_ADDR cfg addr) len (DS_CMD_WRITE cfg) s))" and
      ne: "evs \<noteq> []" and v: "\<exists>stl. verdict cfg stl r (last evs)"
      by blast
    from v obtain stl where "verdict cfg stl r (last evs)" by blast
    from verdict_cases[OF assms ne this] show ?thesis
      unfolding wr by (simp add: Let_def)
  qed
  have C: "(case dataslot_open_file cfg name fl sz s of
            None \<Rightarrow> False
          | Some (r, s') \<Rightarrow>
             (WaitTimeoutClear 0 \<in> set (emitted s s') \<and> r = - 3) \<or>
             (WaitTimeoutAck 0 \<in> set (emitted s s') \<and> r = - 1) \<or>
             (\<exists>st. WaitTimeoutDone 0 st \<in> set (emitted s s') \<and> r = - 2) \<or>
             (\<exists>st. WaitFinal st (uint (err_field cfg st)) \<in> set (emitted s s') \<and>
                   r = - uint (err_field cfg st)))"
  proof -
    from dataslot_open_file_summary[of cfg name fl sz s] obtain n m evs r s5 where
      op: "dataslot_open_file cfg name fl sz s = Some (r, advance n m evs s5)" and
      lg: "term_log s5 = term_log s" and
      ne: "evs \<noteq> []" and v: "\<exists>stl. verdict cfg stl r (last evs)"
      by blast
    have em: "emitted s (advance n m evs s5) = evs" by (simp add: emitted_def lg)
    from v obtain stl where "verdict cfg stl r (last evs)" by blast
    from verdict_cases[OF assms ne this] show ?thesis
      unfolding op by (simp add: em)
  qed
  show ?thesis using A B C by blast
qed

theorem failure_codes_witness:
  "err_field_fits example_config \<and>
   ((let (r, s') = dataslot_read example_config 1 0 0x10000000 16 (idle_device (completes 1));
         E = set (emitted (idle_device (completes 1)) s')
     in (((0x10000000 :: u32) < 0x10000000 \<or> (0x14000000 :: u32) \<le> 0x10000000) \<and> r = - 10 \<and>
          s' = idle_device (completes 1)) \<or>
        (WaitTimeoutClear 0 \<in> E \<and> r = - 3) \<or>
        (WaitTimeoutAck 0 \<in> E \<and> r = - 1) \<or>
        (\<exists>st. WaitTimeoutDone 0 st \<in> E \<and> r = - 2) \<or>
        (\<exists>st. WaitFinal st (uint (err_field example_config st)) \<in> E \<and>
              r = - uint (err_field example_config st))) \<and>
    (let (r, s') = dataslot_write example_config 1 0 0x10000000 16 (idle_device (completes 1));
         E = set (emitted (idle_device (completes 1)) s')
     in (((0x10000000 :: u32) < 0x10000000 \<or> (0x14000000 :: u32) \<le> 0x10000000) \<and> r = - 10 \<and>
          s' = idle_device (completes 1)) \<or>
        (WaitTimeoutClear 0 \<in> E \<and> r = - 3) \<or>
        (WaitTimeoutAck 0 \<in> E \<and> r = - 1) \<or>
        (\<exists>st. WaitTimeoutDone 0 st \<in> E \<and> r = - 2) \<or>
        (\<exists>st. WaitFinal st (uint (err_field example_config st)) \<in> E \<and>
              r = - uint (err_field example_config st))) \<and>
    (case dataslot_open_file example_config [102, 111, 111] 1 0 (idle_device (completes 1)) of
       None \<Rightarrow> False
     | Some (r, s') \<Rightarrow>
        (WaitTimeoutClear 0 \<in> set (emitted (idle_device (completes 1)) s') \<and> r = - 3) \<or>
        (WaitTimeoutAck 0 \<in> set (emitted (idle_device (completes 1)) s') \<and> r = - 1) \<or>
        (\<exists>st. WaitTimeoutDone 0 st \<in> set (emitted (idle_device (completes 1)) s') \<and> r = - 2) \<or>
        (\<exists>st. WaitFinal st (uint (err_field example_config st))
                \<in> set (emitted (idle_device (completes 1)) s') \<and>
              r = - uint (err_field example_config st))))"
  by (rule conjI[OF example_fits failure_codes[OF example_fits]])

theorem failure_codes_counterexample:
  "fst (dataslot_read example_config 1 0 0x10000000 16 (idle_device silent)) =
     fst (dataslot_read example_config 1 0 0x10000000 16 (idle_device (completes 1))) \<and>
   WaitTimeoutAck 0 \<in>
     set (term_log (snd (dataslot_read example_config 1 0 0x10000000 16 (idle_device silent)))) \<and>
   WaitFinal 7 1 \<in>
     set (term_log (snd (dataslot_read example_config 1 0 0x10000000 16 (idle_device (completes 1)))))"
proof -
  have v: "(0x10000000 :: u32) \<le> 0x10000000" "(0x10000000 :: u32) < 0x14000000" by simp_all
  show ?thesis
    by (simp add: read_on_silent[OF v] read_on_completes[OF v] bridge_code_examples)
qed

text \<open>
  C6 (as the code has it). A \<open>dataslot_read\<close> with a destination inside the window
  stores the slot, the offset, the translated destination and the length in
  their registers, triggers the read command and returns what the waiter
  returns on the device so programmed. With an error field narrower than 32 bits
  that value is never positive: it is \<open>-e\<close> for the error value \<open>e\<close> of the
  final status, so 0 on success, not the number of bytes.
\<close>

theorem read_programs_and_waits:
  assumes "0x10000000 \<le> dest" and "dest < 0x14000000"
  shows "(let (r, s') = dataslot_read cfg slot off dest len s
          in DS_SLOT_ID s' = slot \<and> DS_SLOT_OFFSET s' = off \<and>
             DS_BRIDGE_ADDR s' = CPU_TO_BRIDGE_ADDR cfg dest \<and> DS_LENGTH s' = len \<and>
             DS_COMMAND s' = DS_COMMAND s @ [DS_CMD_READ cfg] \<and>
             r = fst (dataslot_wait_complete cfg
                   (program_transfer slot off (CPU_TO_BRIDGE_ADDR cfg dest) len (DS_CMD_READ cfg)
                      (advance 1 0 [ReadParams slot off (CPU_TO_BRIDGE_ADDR cfg dest) len,
                                    ReadStatusBefore (status_seq s (status_reads s))] s))) \<and>
             (err_field_fits cfg \<longrightarrow>
                r \<le> 0 \<and> (\<forall>st e. WaitFinal st e \<in> set (emitted s s') \<longrightarrow> r = - e)))"
proof -
  from dataslot_read_summary[OF assms, of cfg slot off len s] obtain n m evs r st' where
    rd: "dataslot_read cfg slot off dest len s =
      (r, advance (n + 2) m
            ([ReadParams slot off (CPU_TO_BRIDGE_ADDR cfg dest) len,
              ReadStatusBefore (status_seq s (status_reads s))] @ evs @
             [ReadStatusAfter st' r, ReadData dest])
            (program_transfer slot off (CPU_TO_BRIDGE_ADDR cfg dest) len (DS_CMD_READ cfg) s))" and
    w: "dataslot_wait_complete cfg
        (program_transfer slot off (CPU_TO_BRIDGE_ADDR cfg dest) len (DS_CMD_READ cfg)
           (advance 1 0 [ReadParams slot off (CPU_TO_BRIDGE_ADDR cfg dest) len,
                         ReadStatusBefore (status_seq s (status_reads s))] s)) =
      (r, advance n m evs
        (program_transfer slot off (CPU_TO_BRIDGE_ADDR cfg dest) len (DS_CMD_READ cfg)
           (advance 1 0 [ReadParams slot off (CPU_TO_BRIDGE_ADDR cfg dest) len,
                         ReadStatusBefore (status_seq s (status_reads s))] s)))" and
    ne: "evs \<noteq> []" and v: "\<exists>stl. verdict cfg stl r (last evs)" and
    fin: "\<forall>st e. WaitFinal st e \<in> set evs \<longrightarrow> last evs = WaitFinal st e"
    by blast
  from v obtain stl where vs: "verdict cfg stl r (last evs)" by blast
  have sign: "r \<le> 0" if fits: "err_field_fits cfg"
    using verdict_cases[OF fits ne vs] by auto
  have code: "r = - e" if fits: "err_field_fits cfg" and mem: "WaitFinal st e \<in> set evs" for st e
  proof -
    from fin mem have "last evs = WaitFinal st e" by blast
    with vs have "e = sint (err_field cfg st)" "r = bridge_code cfg st"
      by (simp_all add: verdict_def)
    moreover have "sint (err_field cfg st) = uint (err_field cfg st)"
      using err_field_bound[OF fits] by (rule sint_small)
    ultimately show ?thesis using bridge_code_fits[OF fits] by simp
  qed
  show ?thesis
    unfolding rd w using sign code by (auto simp add: Let_def)
qed

theorem read_programs_and_waits_witness:
  "(0x10000000 :: u32) \<le> 0x10000000 \<and> (0x10000000 :: u32) < 0x14000000 \<and>
   err_field_fits example_config \<and>
   DS_SLOT_ID (snd (dataslot_read example_config 1 0x200 0x10000000 16 (idle_device (completes 0)))) = 1 \<and>
   DS_SLOT_OFFSET (snd (dataslot_read example_config 1 0x200 0x10000000 16 (idle_device (completes 0)))) = 0x200 \<and>
   DS_BRIDGE_ADDR (snd (dataslot_read example_config 1 0x200 0x10000000 16 (idle_device (completes 0)))) = 0 \<and>
   DS_LENGTH (snd (dataslot_read example_config 1 0x200 0x10000000 16 (idle_device (completes 0)))) = 16 \<and>
   DS_COMMAND (snd (dataslot_read example_config 1 0x200 0x10000000 16 (idle_device (completes 0)))) = [0x180] \<and>
   fst (dataslot_read example_config 1 0x200 0x10000000 16 (idle_device (completes 0))) \<le> 0"
  using read_programs_and_waits[of "0x10000000" example_config 1 "0x200" 16 "idle_device (completes 0)"]
    example_fits
  by (simp add: Let_def split_beta example_config_def)

theorem read_returns_byte_count_counterexample:
  "WaitFinal 3 0 \<in>
     set (term_log (snd (dataslot_read example_config 1 0 0x10000000 16 (idle_device (completes 0))))) \<and>
   fst (dataslot_read example_config 1 0 0x10000000 16 (idle_device (completes 0))) = 0 \<and>
   fst (dataslot_read example_config 1 0 0x10000000 16 (idle_device (completes 0))) \<noteq> 16"
proof -
  have v: "(0x10000000 :: u32) \<le> 0x10000000" "(0x10000000 :: u32) < 0x14000000" by simp_all
  show ?thesis
    by (simp add: read_on_completes[OF v] bridge_code_examples)
qed

text \<open>
  C7 (as the code has it). \<open>dataslot_load\<close> leaves the device in the state
  \<open>dataslot_read\<close> with offset 0 leaves it in. It passes a negative result of the
  read on; otherwise it returns \<open>max_length\<close> read as a signed 32-bit value, which
  is \<open>max_length\<close> itself exactly for lengths below \<open>2^31\<close>.
\<close>

theorem load_is_read_at_offset_zero:
  "snd (dataslot_load cfg slot_id dest max_length s) =
     snd (dataslot_read cfg (ucast slot_id) 0 dest max_length s) \<and>
   (fst (dataslot_read cfg (ucast slot_id) 0 dest max_length s) < 0 \<longrightarrow>
      fst (dataslot_load cfg slot_id dest max_length s) =
        fst (dataslot_read cfg (ucast slot_id) 0 dest max_length s)) \<and>
   (0 \<le> fst (dataslot_read cfg (ucast slot_id) 0 dest max_length s) \<longrightarrow>
      fst (dataslot_load cfg slot_id dest max_length s) = sint max_length \<and>
      (fst (dataslot_load cfg slot_id dest max_length s) = uint max_length
         \<longleftrightarrow> uint max_length < 2 ^ 31))"
proof -
  have iff: "sint max_length = uint max_length \<longleftrightarrow> uint max_length < 2 ^ 31"
  proof
    assume "sint max_length = uint max_length"
    then show "uint max_length < 2 ^ 31" using sint_less[of max_length] by simp
  next
    assume "uint max_length < 2 ^ 31"
    then show "sint max_length = uint max_length" by (rule sint_small)
  qed
  show ?thesis
    using iff by (simp add: dataslot_load_def split_beta Let_def)
qed

theorem load_is_read_at_offset_zero_witness:
  "0 \<le> fst (dataslot_read example_config (ucast (1 :: u16)) 0 0x10000000 4096 (idle_device (completes 0))) \<and>
   uint (4096 :: u32) < 2 ^ 31 \<and>
   fst (dataslot_load example_config 1 0x10000000 4096 (idle_device (completes 0))) = 4096 \<and>
   fst (dataslot_read example_config (ucast (1 :: u16)) 0 0x10000000 16 (idle_device silent)) < 0 \<and>
   fst (dataslot_load example_config 1 0x10000000 16 (idle_device silent)) = - 1"
proof -
  have v: "(0x10000000 :: u32) \<le> 0x10000000" "(0x10000000 :: u32) < 0x14000000" by simp_all
  have ok: "fst (dataslot_read example_config 1 0 0x10000000 4096
                  (idle_device (completes 0))) = 0"
    by (simp add: read_on_completes[OF v] bridge_code_examples)
  have bad: "fst (dataslot_read example_config 1 0 0x10000000 16
                  (idle_device silent)) = - 1"
    by (simp add: read_on_silent[OF v])
  show ?thesis
    using load_is_read_at_offset_zero[of example_config 1 "0x10000000" 4096 "idle_device (completes 0)"]
      load_is_read_at_offset_zero[of example_config 1 "0x10000000" 16 "idle_device silent"]
    by (simp add: ok bad)
qed

theorem load_returns_length_counterexample:
  "fst (dataslot_read example_config (ucast (1 :: u16)) 0 0x10000000 0x80000000
          (idle_device (completes 0))) = 0 \<and>
   fst (dataslot_load example_config 1 0x10000000 0x80000000 (idle_device (completes 0))) =
     - 2147483648 \<and>
   fst (dataslot_load example_config 1 0x10000000 0x80000000 (idle_device (completes 0))) \<noteq>
     uint (0x80000000 :: u32)"
proof -
  have v: "(0x10000000 :: u32) \<le> 0x10000000" "(0x10000000 :: u32) < 0x14000000" by simp_all
  have ok: "fst (dataslot_read example_config 1 0 0x10000000 0x80000000
                  (idle_device (completes 0))) = 0"
    by (simp add: read_on_completes[OF v] bridge_code_examples)
  show ?thesis
    by (simp add: dataslot_load_def split_beta ok)
qed

text \<open>
  C8. \<open>dataslot_open_file\<close> never stores outside the 256-byte filename field
  (the model would return \<open>None\<close>), the field always ends with a zero byte at
  index 255, and flags and size are stored as given. A name of 255 bytes or more,
  so every name longer than the field, is stored as its first 255 bytes followed
  by the terminator; a shorter name is stored whole, followed by zero bytes.
\<close>

theorem filename_truncation:
  "\<exists>r s'. dataslot_open_file cfg name fl sz s = Some (r, s') \<and>
      length (filename (param_buffer s')) = 256 \<and>
      filename (param_buffer s') ! 255 = 0 \<and>
      flags (param_buffer s') = fl \<and> size_param (param_buffer s') = sz \<and>
      (255 \<le> length (c_string name) \<longrightarrow>
         filename (param_buffer s') = take 255 (c_string name) @ [0]) \<and>
      (length (c_string name) < 255 \<longrightarrow>
         filename (param_buffer s') =
           c_string name @ replicate (256 - length (c_string name)) 0)"
proof -
  let ?p = "\<lparr> filename = padded 255 (c_string name) @ [0], flags = fl, size_param = sz \<rparr>"
  let ?s5 = "s\<lparr>param_buffer := ?p, DS_SLOT_ID := 0,
               DS_PARAM_ADDR := CPU_TO_BRIDGE_ADDR cfg PARAM_BUFFER_ADDR,
               DS_RESP_ADDR := CPU_TO_BRIDGE_ADDR cfg RESP_BUFFER_ADDR,
               DS_COMMAND := DS_COMMAND s @ [DS_CMD_OPENFILE cfg]\<rparr>"
  have call: "dataslot_open_file cfg name fl sz s = Some (dataslot_wait_complete cfg ?s5)"
    by (simp add: dataslot_open_file_def stage_open_param_eq Let_def)
  from waiter_summary[of cfg ?s5] obtain n m evs r where
    run: "dataslot_wait_complete cfg ?s5 = (r, advance n m evs ?s5)"
    by blast
  have buf: "param_buffer (advance n m evs ?s5) = ?p" by simp
  have long: "padded 255 (c_string name) @ [0] = take 255 (c_string name) @ [0]"
    if "255 \<le> length (c_string name)"
    using that by (simp add: padded_def)
  have short: "padded 255 (c_string name) @ [0] =
      c_string name @ replicate (256 - length (c_string name)) 0"
    if "length (c_string name) < 255"
  proof -
    have "256 - length (c_string name) = Suc (255 - length (c_string name))"
      using that by simp
    then show ?thesis using that by (simp add: padded_def replicate_append_same)
  qed
  have last: "(padded 255 (c_string name) @ [0]) ! 255 = 0"
    by (simp add: nth_append)
  show ?thesis
    apply (rule exI[of _ r], rule exI[of _ "advance n m evs ?s5"])
    using call run long short last
    apply (simp add: buf)
    done
qed

theorem filename_truncation_witness:
  "255 \<le> length (c_string (replicate 300 65)) \<and>
   length (c_string [102, 111, 111]) < 255 \<and>
   (\<exists>r s'. dataslot_open_file example_config (replicate 300 65) 1 0 (idle_device silent) = Some (r, s') \<and>
      filename (param_buffer s') = replicate 255 65 @ [0]) \<and>
   (\<exists>r s'. dataslot_open_file example_config [102, 111, 111] 1 0 (idle_device silent) = Some (r, s') \<and>
      filename (param_buffer s') = [102, 111, 111] @ replicate 253 0)"
proof -
  have a: "c_string (replicate 300 65) = replicate 300 65"
    by (simp add: c_string_def)
  have b: "c_string [102, 111, 111] = [102, 111, 111]"
    by (simp add: c_string_def)
  from filename_truncation[of example_config "replicate 300 65" 1 0 "idle_device silent"]
  obtain r s' where
    "dataslot_open_file example_config (replicate 300 65) 1 0 (idle_device silent) = Some (r, s')"
    "255 \<le> length (c_string (replicate 300 65)) \<longrightarrow>
       filename (param_buffer s') = take 255 (c_string (replicate 300 65)) @ [0]"
    by blast
  then have long: "\<exists>r s'. dataslot_open_file example_config (replicate 300 65) 1 0
        (idle_device silent) = Some (r, s') \<and>
      filename (param_buffer s') = replicate 255 65 @ [0]"
    by (simp add: a)
  from filename_truncation[of example_config "[102, 111, 111]" 1 0 "idle_device silent"]
  obtain r2 s2 where
    "dataslot_open_file example_config [102, 111, 111] 1 0 (idle_device silent) = Some (r2, s2)"
    "length (c_string [102, 111, 111]) < 255 \<longrightarrow>
       filename (param_buffer s2) =
         c_string [102, 111, 111] @ replicate (256 - length (c_string [102, 111, 111])) 0"
    by blast
  then have short: "\<exists>r s'. dataslot_open_file example_config [102, 111, 111] 1 0
        (idle_device silent) = Some (r, s') \<and>
      filename (param_buffer s') = [102, 111, 111] @ replicate 253 0"
    by (simp add: b)
  show ?thesis using long short by (simp add: a b)
qed


text \<open>
  C10. Only the start address is validated. For every buffer address inside
  \<open>[0x10000000, 0x14000000)\<close> and every length, also one that reaches past the
  end of the window, \<open>dataslot_read\<close> and \<open>dataslot_write\<close> store the length in the
  length register unchanged and trigger the command.
\<close>

theorem start_address_only:
  assumes "0x10000000 \<le> addr" and "addr < 0x14000000"
  shows "DS_LENGTH (snd (dataslot_read cfg slot off addr len s)) = len \<and>
         DS_COMMAND (snd (dataslot_read cfg slot off addr len s)) = DS_COMMAND s @ [DS_CMD_READ cfg] \<and>
         DS_LENGTH (snd (dataslot_write cfg wslot off addr len s)) = len \<and>
         DS_COMMAND (snd (dataslot_write cfg wslot off addr len s)) = DS_COMMAND s @ [DS_CMD_WRITE cfg]"
proof -
  from dataslot_read_summary[OF assms, of cfg slot off len s] obtain n m evs r st' where
    "dataslot_read cfg slot off addr len s =
      (r, advance (n + 2) m
            ([ReadParams slot off (CPU_TO_BRIDGE_ADDR cfg addr) len,
              ReadStatusBefore (status_seq s (status_reads s))] @ evs @
             [ReadStatusAfter st' r, ReadData addr])
            (program_transfer slot off (CPU_TO_BRIDGE_ADDR cfg addr) len (DS_CMD_READ cfg) s))"
    by blast
  moreover
  from dataslot_write_summary[OF assms, of cfg wslot off len s] obtain n' m' evs' r' where
    "dataslot_write cfg wslot off addr len s =
      (r', advance n' m' evs'
            (program_transfer (ucast wslot) off (CPU_TO_BRIDGE_ADDR cfg addr) len (DS_CMD_WRITE cfg) s))"
    by blast
  ultimately show ?thesis by simp
qed

theorem start_address_only_witness:
  "(0x10000000 :: u32) \<le> 0x13FFFFFF \<and> (0x13FFFFFF :: u32) < 0x14000000 \<and>
   unat (0x13FFFFFF :: u32) + unat (0xFFFFFFFF :: u32) > 0x14000000 \<and>
   DS_LENGTH (snd (dataslot_read example_config 1 0 0x13FFFFFF 0xFFFFFFFF (idle_device silent))) = 0xFFFFFFFF \<and>
   DS_COMMAND (snd (dataslot_read example_config 1 0 0x13FFFFFF 0xFFFFFFFF (idle_device silent))) = [0x180] \<and>
   DS_LENGTH (snd (dataslot_write example_config 1 0 0x13FFFFFF 0xFFFFFFFF (idle_device silent))) = 0xFFFFFFFF \<and>
   DS_COMMAND (snd (dataslot_write example_config 1 0 0x13FFFFFF 0xFFFFFFFF (idle_device silent))) = [0x184]"
  using start_address_only[of "0x13FFFFFF" example_config 1 0 "0xFFFFFFFF" "idle_device silent" 1]
  by (simp add: example_config_def)

end
